theory Spec2Isabelle
  imports Complex_Main "HOL-Library.Sublist" "HOL-Library.Word" "HOL-Library.AList"
    "HOL-Library.Log_Nat"
begin

section \<open>Strings\<close>

text \<open>
  Go strings are byte sequences; they are modelled as \<open>string\<close> (a list of \<open>char\<close>,
  one per byte). \<open>Replace s old new\<close> is \<^verbatim>\<open>strings.Replace(s, old, new, -1)\<close>: the
  occurrences of \<open>old\<close> are found from left to right and do not overlap. Every call in
  the package has a non-empty \<open>old\<close>; for an empty \<open>old\<close> Go inserts \<open>new\<close> in front
  of the string and behind every character of it.
\<close>

function Replace :: "string \<Rightarrow> string \<Rightarrow> string \<Rightarrow> string" where
  "Replace s old new =
     (if old = [] then new @ concat (map (\<lambda>c. c # new) s)
      else if s = [] then []
      else if prefix old s then new @ Replace (drop (length old) s) old new
      else hd s # Replace (tl s) old new)"
  by pat_completeness auto
termination
  by (relation "measure (\<lambda>(s, old, new). length s)") auto

declare Replace.simps [simp del]

text \<open>\<^verbatim>\<open>func SecureUrl(url string, secure bool) string\<close>\<close>

definition SecureUrl :: "string \<Rightarrow> bool \<Rightarrow> string" where
  "SecureUrl url secure =
     (let url1 = Replace url ''http:'' '''';
          url2 = Replace url1 ''https:'' '''';
          url3 = Replace url2 ''//'' '''';
          url4 = (if secure then ''https://'' @ url3 else ''http://'' @ url3);
          clear1 = Replace url4 [CHR 0x0A] '''';
          clear2 = Replace clear1 [CHR 0x09] '''';
          clear3 = Replace clear2 '' '' ''''
      in clear3)"

text \<open>Names for the three stages of \<open>SecureUrl\<close>, used in the proofs only.\<close>

definition scheme :: "bool \<Rightarrow> string" where
  "scheme secure = (if secure then ''https://'' else ''http://'')"

definition strip3 :: "string \<Rightarrow> string" where
  "strip3 u = Replace (Replace (Replace u ''http:'' []) ''https:'' []) ''//'' []"

definition unspace :: "string \<Rightarrow> string" where
  "unspace u =
     filter (\<lambda>x. x \<noteq> CHR '' '')
       (filter (\<lambda>x. x \<noteq> CHR 0x09) (filter (\<lambda>x. x \<noteq> CHR 0x0A) u))"


text \<open>
  \<^verbatim>\<open>strings.TrimSpace\<close> removes the leading and the trailing white space of a string, as
  Unicode defines it. On the bytes of a string these are the six ASCII characters
  tab, line feed, vertical tab, form feed, carriage return and space, and the UTF-8
  encodings of U+0085, U+00A0, U+1680, U+2000 to U+200A, U+2028, U+2029, U+202F,
  U+205F and U+3000.
\<close>

definition space_encodings :: "string list" where
  "space_encodings =
     map (\<lambda>b. [b]) [CHR 0x09, CHR 0x0A, CHR 0x0B, CHR 0x0C, CHR 0x0D, CHR 0x20] @
     map (\<lambda>b. [CHR 0xC2, b]) [CHR 0x85, CHR 0xA0] @
     map (\<lambda>b. [CHR 0xE1, CHR 0x9A, b]) [CHR 0x80] @
     map (\<lambda>b. [CHR 0xE2, CHR 0x80, b])
       [CHR 0x80, CHR 0x81, CHR 0x82, CHR 0x83, CHR 0x84, CHR 0x85, CHR 0x86, CHR 0x87,
        CHR 0x88, CHR 0x89, CHR 0x8A, CHR 0xA8, CHR 0xA9, CHR 0xAF] @
     map (\<lambda>b. [CHR 0xE2, CHR 0x81, b]) [CHR 0x9F] @
     map (\<lambda>b. [CHR 0xE3, CHR 0x80, b]) [CHR 0x80]"

function TrimLeft :: "string list \<Rightarrow> string \<Rightarrow> string" where
  "TrimLeft encs s =
     (case find (\<lambda>e. e \<noteq> [] \<and> prefix e s) encs of
        Some e \<Rightarrow> TrimLeft encs (drop (length e) s)
      | None \<Rightarrow> s)"
  by pat_completeness auto
termination
proof (relation "measure (\<lambda>(encs, s). length s)")
  show "wf (measure (\<lambda>(encs, s). length s))" by simp
next
  fix encs :: "string list" and s e :: string
  assume "find (\<lambda>e. e \<noteq> [] \<and> prefix e s) encs = Some e"
  then have "e \<noteq> []" and "prefix e s" by (auto simp: find_Some_iff)
  then have "length (drop (length e) s) < length s"
    by (cases e; cases s) auto
  then show "((encs, drop (length e) s), (encs, s)) \<in> measure (\<lambda>(encs, s). length s)"
    by simp
qed

declare TrimLeft.simps [simp del]

definition TrimSpace :: "string \<Rightarrow> string" where
  "TrimSpace s =
     rev (TrimLeft (map rev space_encodings) (rev (TrimLeft space_encodings s)))"

section \<open>The document model\<close>

text \<open>
  Go's \<open>int\<close> is taken at 64 bits, two's complement, as on the common platforms:
  arithmetic wraps around, and \<open>sint\<close> reads the value of a word.
\<close>

type_synonym go_int = "64 word"

text \<open>
  Modelled from the spec: the declarations of the types \<open>Offset\<close> and \<open>Duration\<close> are
  not among the source files at hand. Section 4.1 of the specification describes them
  as opaque wrappers of one string-based time value, on which no arithmetic is done.
\<close>

type_synonym Offset = string
type_synonym Duration = string

text \<open>
  A struct is a record; a field \<open>F\<close> of a struct \<open>T\<close> is the field \<open>T_F\<close>. A pointer
  field is an \<open>option\<close> (\<open>None\<close> is \<open>nil\<close>), and a slice is the list of its elements:
  a document is a tree, as the XML decoder builds it, in which no two fields share an
  object or a backing array. A nil slice and an empty slice are both \<open>[]\<close>.
\<close>

record CDATAString =
  CDATA :: string

record Impression =
  Impression_ID :: string
  Impression_URI :: string

record Viewable =
  Viewable_ID :: string
  Viewable_URI :: string

record AdSystem =
  AdSystem_Version :: string
  AdSystem_Name :: string

record Tracking =
  Tracking_Event :: string
  Tracking_Offset :: "Offset option"
  Tracking_URI :: string

record VideoClick =
  VideoClick_ID :: string
  VideoClick_URI :: string

record VideoClicks =
  VideoClicks_ClickThroughs :: "VideoClick list"
  VideoClicks_ClickTrackings :: "VideoClick list"
  VideoClicks_CustomClicks :: "VideoClick list"

record MediaFile =
  MediaFile_ID :: string
  MediaFile_Delivery :: string
  MediaFile_Type :: string
  MediaFile_Codec :: string
  MediaFile_Bitrate :: go_int
  MediaFile_MinBitrate :: go_int
  MediaFile_MaxBitrate :: go_int
  MediaFile_Width :: go_int
  MediaFile_Height :: go_int
  MediaFile_Scalable :: bool
  MediaFile_MaintainAspectRatio :: bool
  MediaFile_APIFramework :: string
  MediaFile_URI :: string

record AdParameters =
  AdParameters_XMLEncoded :: bool
  AdParameters_Parameters :: string

record StaticResource =
  StaticResource_CreativeType :: string
  StaticResource_URI :: string

record HTMLResource =
  HTMLResource_XMLEncoded :: bool
  HTMLResource_HTML :: string

record Icon =
  Icon_Program :: string
  Icon_Width :: go_int
  Icon_Height :: go_int
  Icon_XPosition :: string
  Icon_YPosition :: string
  Icon_Offset :: Offset
  Icon_Duration :: Duration
  Icon_APIFramework :: string
  Icon_IconClickThrough :: CDATAString
  Icon_IconClickTrackings :: "CDATAString list"
  Icon_StaticResource :: "StaticResource option"
  Icon_IFrameResource :: CDATAString
  Icon_HTMLResource :: "HTMLResource option"

record Icons =
  Icons_XMLName :: "string \<times> string"
  Icons_Icon :: "Icon list"

record Linear =
  Linear_SkipOffset :: "Offset option"
  Linear_Duration :: Duration
  Linear_AdParameters :: "AdParameters option"
  Linear_Icons :: "Icons option"
  Linear_TrackingEvents :: "Tracking list"
  Linear_VideoClicks :: "VideoClicks option"
  Linear_MediaFiles :: "MediaFile list"

record Companion =
  Companion_ID :: string
  Companion_Width :: go_int
  Companion_Height :: go_int
  Companion_AssetWidth :: go_int
  Companion_AssetHeight :: go_int
  Companion_ExpandedWidth :: go_int
  Companion_ExpandeHeight :: go_int
  Companion_APIFramework :: string
  Companion_AdSlotID :: string
  Companion_CompanionClickThrough :: CDATAString
  Companion_CompanionClickTracking :: "CDATAString list"
  Companion_AltText :: string
  Companion_TrackingEvents :: "Tracking list"
  Companion_AdParameters :: "AdParameters option"
  Companion_StaticResource :: "StaticResource option"
  Companion_IFrameResource :: CDATAString
  Companion_HTMLResource :: "HTMLResource option"

record CompanionAds =
  CompanionAds_Required :: string
  CompanionAds_Companions :: "Companion list"

record NonLinear =
  NonLinear_ID :: string
  NonLinear_Width :: go_int
  NonLinear_Height :: go_int
  NonLinear_ExpandedWidth :: go_int
  NonLinear_ExpandeHeight :: go_int
  NonLinear_Scalable :: bool
  NonLinear_MaintainAspectRatio :: bool
  NonLinear_MinSuggestedDuration :: "Duration option"
  NonLinear_APIFramework :: string
  NonLinear_NonLinearClickTracking :: "CDATAString list"
  NonLinear_NonLinearClickThrough :: CDATAString
  NonLinear_AdParameters :: "AdParameters option"
  NonLinear_StaticResource :: "StaticResource option"
  NonLinear_IFrameResource :: CDATAString
  NonLinear_HTMLResource :: "HTMLResource option"

record NonLinearAds =
  NonLinearAds_TrackingEvents :: "Tracking list"
  NonLinearAds_NonLinears :: "NonLinear list"

record Creative =
  Creative_ID :: string
  Creative_Sequence :: go_int
  Creative_AdID :: string
  Creative_APIFramework :: string
  Creative_Linear :: "Linear option"
  Creative_CompanionAds :: "CompanionAds option"
  Creative_NonLinearAds :: "NonLinearAds option"

text \<open>
  The creatives of a wrapper. \<open>CompanionWrapper\<close> has the fields of \<open>Companion\<close>, so
  the record \<open>Companion\<close> stands for both.
\<close>

record LinearWrapper =
  LinearWrapper_Icons :: "Icons option"
  LinearWrapper_TrackingEvents :: "Tracking list"
  LinearWrapper_VideoClicks :: "VideoClicks option"

record CompanionAdsWrapper =
  CompanionAdsWrapper_Required :: string
  CompanionAdsWrapper_Companions :: "Companion list"

record NonLinearWrapper =
  NonLinearWrapper_ID :: string
  NonLinearWrapper_Width :: go_int
  NonLinearWrapper_Height :: go_int
  NonLinearWrapper_ExpandedWidth :: go_int
  NonLinearWrapper_ExpandeHeight :: go_int
  NonLinearWrapper_Scalable :: bool
  NonLinearWrapper_MaintainAspectRatio :: bool
  NonLinearWrapper_MinSuggestedDuration :: "Duration option"
  NonLinearWrapper_APIFramework :: string
  NonLinearWrapper_TrackingEvents :: "Tracking list"
  NonLinearWrapper_NonLinearClickTracking :: "CDATAString list"

record NonLinearAdsWrapper =
  NonLinearAdsWrapper_TrackingEvents :: "Tracking list"
  NonLinearAdsWrapper_NonLinears :: "NonLinearWrapper list"

record CreativeWrapper =
  CreativeWrapper_ID :: string
  CreativeWrapper_Sequence :: go_int
  CreativeWrapper_AdID :: string
  CreativeWrapper_Linear :: "LinearWrapper option"
  CreativeWrapper_CompanionAds :: "CompanionAdsWrapper option"
  CreativeWrapper_NonLinearAds :: "NonLinearAdsWrapper option"

text \<open>
  \<open>Extension_Attributes\<close> is a Go map from string to string, kept as the list of its
  entries: \<open>map_of\<close> looks a name up, and a nil map is the empty list.
\<close>

record Extension =
  Extension_Type :: string
  Extension_Name :: string
  Extension_CustomTracking :: "Tracking list"
  Extension_Data :: string
  Extension_Attributes :: "(string \<times> string) list"

record InLine =
  InLine_AdSystem :: "AdSystem option"
  InLine_AdTitle :: CDATAString
  InLine_Impressions :: "Impression list"
  InLine_ViewableImpression :: "Viewable list"
  InLine_Creatives :: "Creative list"
  InLine_Description :: CDATAString
  InLine_Advertiser :: string
  InLine_Survey :: CDATAString
  InLine_Errors :: "CDATAString list"
  InLine_Pricing :: string
  InLine_Extensions :: "Extension list"

record Wrapper =
  Wrapper_AdSystem :: "AdSystem option"
  Wrapper_VASTAdTagURI :: CDATAString
  Wrapper_Impressions :: "Impression list"
  Wrapper_ViewableImpression :: "Viewable list"
  Wrapper_Errors :: "CDATAString list"
  Wrapper_Creatives :: "CreativeWrapper list"
  Wrapper_Extensions :: "Extension list"
  Wrapper_FallbackOnNoAd :: "bool option"
  Wrapper_AllowMultipleAds :: "bool option"
  Wrapper_FollowAdditionalWrappers :: "bool option"

record Ad =
  Ad_ID :: string
  Ad_Sequence :: go_int
  Ad_InLine :: "InLine option"
  Ad_Wrapper :: "Wrapper option"

record VAST =
  VAST_Version :: string
  VAST_Ads :: "Ad list"
  VAST_Errors :: "CDATAString list"

section \<open>Errors\<close>

text \<open>
  \<open>New msg\<close> is \<^verbatim>\<open>errors.New(msg)\<close>, and \<open>Errorf what i err\<close> is
  \<^verbatim>\<open>fmt.Errorf("<what>[%d] %s", i, err)\<close>; \<open>Error_text\<close> is the message. A function that
  returns \<open>error\<close> returns an \<open>error option\<close>, \<open>None\<close> for \<open>nil\<close>.
\<close>

datatype error = New string | Errorf string nat error

function decimal :: "nat \<Rightarrow> string" where
  "decimal n =
     (if n < 10 then [char_of (48 + n)]
      else decimal (n div 10) @ [char_of (48 + n mod 10)])"
  by pat_completeness auto
termination
  by (relation "measure id") auto

declare decimal.simps [simp del]

fun Error_text :: "error \<Rightarrow> string" where
  "Error_text (New msg) = msg"
| "Error_text (Errorf what i err) = what @ ''['' @ decimal i @ ''] '' @ Error_text err"

text \<open>
  The run-time panics of an index out of range and of the dereference of a nil
  pointer. A function that may panic or return an error, and that changes the
  document only when it returns \<open>nil\<close>, returns \<open>failure + VAST\<close>.
\<close>

datatype panic = IndexOutOfRange | NilDereference

datatype failure = Error error | Panic panic

section \<open>Validation\<close>

text \<open>
  The validation functions change the document they validate, also before they return
  an error, so each one returns the error and the receiver as it has become. The
  loops of the shape
  \<^verbatim>\<open>out := xs[:0]; for _, x := range xs { if keep(x) { out = append(out, x) } }; xs = out\<close>
  filter a slice in its own backing array: the element \<open>i\<close> is read before a slot
  \<open>j \<le> i\<close> is written, so that the result is \<open>filter keep xs\<close> (the lemma
  \<open>range_loop_filter\<close> proves it on the model of the array).
\<close>

definition MediaFile_Validate :: "MediaFile \<Rightarrow> error option" where
  "MediaFile_Validate media =
     (if MediaFile_URI media = [] then Some (New ''empty uri'')
      else if MediaFile_Type media = [] then Some (New ''empty type'')
      else if MediaFile_Width media = 0 then Some (New ''empty width'')
      else if MediaFile_Height media = 0 then Some (New ''empty height'')
      else None)"

definition Tracking_Validate :: "Tracking \<Rightarrow> error option" where
  "Tracking_Validate track =
     (if Tracking_Event track = [] then Some (New ''empty event'') else None)"

definition VideoClicks_Validate :: "VideoClicks \<Rightarrow> error option \<times> VideoClicks" where
  "VideoClicks_Validate click =
     (None,
      click\<lparr>VideoClicks_ClickThroughs :=
               filter (\<lambda>c. VideoClick_URI c \<noteq> []) (VideoClicks_ClickThroughs click),
             VideoClicks_ClickTrackings :=
               filter (\<lambda>c. VideoClick_URI c \<noteq> []) (VideoClicks_ClickTrackings click),
             VideoClicks_CustomClicks :=
               filter (\<lambda>c. VideoClick_URI c \<noteq> []) (VideoClicks_CustomClicks click)\<rparr>)"

definition NonLinearAds_Validate :: "NonLinearAds \<Rightarrow> error option" where
  "NonLinearAds_Validate nonlinear = None"

text \<open>The loops over the media files and over the tracking events of a \<open>Linear\<close>.\<close>

fun validate_media :: "nat \<Rightarrow> MediaFile list \<Rightarrow> error option" where
  "validate_media i [] = None"
| "validate_media i (m # ms) =
     (case MediaFile_Validate m of
        Some err \<Rightarrow> Some (Errorf ''bad media'' i err)
      | None \<Rightarrow> validate_media (Suc i) ms)"

fun validate_tracks :: "nat \<Rightarrow> Tracking list \<Rightarrow> error option" where
  "validate_tracks i [] = None"
| "validate_tracks i (t # ts) =
     (case Tracking_Validate t of
        Some err \<Rightarrow> Some (Errorf ''bad track'' i err)
      | None \<Rightarrow> validate_tracks (Suc i) ts)"

definition Linear_Validate :: "Linear \<Rightarrow> error option \<times> Linear" where
  "Linear_Validate lin =
     (if Linear_MediaFiles lin = [] then (Some (New ''empty media''), lin)
      else
        (case validate_media 0 (Linear_MediaFiles lin) of
           Some err \<Rightarrow> (Some err, lin)
         | None \<Rightarrow>
             (let lin1 = lin\<lparr>Linear_TrackingEvents :=
                    filter (\<lambda>t. Tracking_URI t \<noteq> []) (Linear_TrackingEvents lin)\<rparr>
              in case validate_tracks 0 (Linear_TrackingEvents lin1) of
                   Some err \<Rightarrow> (Some err, lin1)
                 | None \<Rightarrow>
                     (case Linear_VideoClicks lin1 of
                        None \<Rightarrow> (None, lin1)
                      | Some click \<Rightarrow>
                          (case VideoClicks_Validate click of
                             (err, click') \<Rightarrow>
                               (err, lin1\<lparr>Linear_VideoClicks := Some click'\<rparr>))))))"

definition Creative_Validate :: "Creative \<Rightarrow> error option \<times> Creative" where
  "Creative_Validate creative =
     (case Creative_Linear creative of
        Some lin \<Rightarrow>
          (case Linear_Validate lin of
             (err, lin') \<Rightarrow> (err, creative\<lparr>Creative_Linear := Some lin'\<rparr>))
      | None \<Rightarrow>
          (case Creative_NonLinearAds creative of
             Some nonlinear \<Rightarrow> (NonLinearAds_Validate nonlinear, creative)
           | None \<Rightarrow> (Some (New ''empty linear/nonlinear''), creative)))"

text \<open>
  The loop over the creatives of an \<open>InLine\<close>: the loop variable is a copy of the
  \<open>Creative\<close>, whose pointer to the \<open>Linear\<close> is the one of the document, so what
  \<open>Linear.Validate\<close> changes stays changed, also when a later creative fails.
\<close>

fun validate_creatives :: "nat \<Rightarrow> Creative list \<Rightarrow> error option \<times> Creative list" where
  "validate_creatives i [] = (None, [])"
| "validate_creatives i (c # cs) =
     (case Creative_Validate c of
        (Some err, c') \<Rightarrow> (Some (Errorf ''bad creative'' i err), c' # cs)
      | (None, c') \<Rightarrow>
          (case validate_creatives (Suc i) cs of (err, cs') \<Rightarrow> (err, c' # cs')))"

definition InLine_Validate :: "InLine \<Rightarrow> error option \<times> InLine" where
  "InLine_Validate inline =
     (if InLine_Creatives inline = [] then (Some (New ''empty creative''), inline)
      else
        (case validate_creatives 0 (InLine_Creatives inline) of
           (Some err, cs') \<Rightarrow> (Some err, inline\<lparr>InLine_Creatives := cs'\<rparr>)
         | (None, cs') \<Rightarrow>
             (None,
              inline\<lparr>InLine_Creatives := cs',
                     InLine_Impressions :=
                       map (\<lambda>imp. imp\<lparr>Impression_URI := TrimSpace (Impression_URI imp)\<rparr>)
                         (filter (\<lambda>imp. Impression_URI imp \<noteq> []) (InLine_Impressions inline)),
                     InLine_Errors :=
                       filter (\<lambda>imp. CDATA imp \<noteq> []) (InLine_Errors inline),
                     InLine_ViewableImpression :=
                       map (\<lambda>imp. imp\<lparr>Viewable_URI := TrimSpace (Viewable_URI imp)\<rparr>)
                         (filter (\<lambda>imp. Viewable_URI imp \<noteq> [])
                            (InLine_ViewableImpression inline))\<rparr>)))"

definition Wrapper_Validate :: "Wrapper \<Rightarrow> error option \<times> Wrapper" where
  "Wrapper_Validate wrap =
     (None,
      wrap\<lparr>Wrapper_Impressions :=
              filter (\<lambda>imp. Impression_URI imp \<noteq> []) (Wrapper_Impressions wrap),
            Wrapper_ViewableImpression :=
              filter (\<lambda>imp. Viewable_URI imp \<noteq> []) (Wrapper_ViewableImpression wrap)\<rparr>)"

definition Ad_Validate :: "Ad \<Rightarrow> error option \<times> Ad" where
  "Ad_Validate ad =
     (case Ad_Wrapper ad of
        Some wrap \<Rightarrow>
          (case Wrapper_Validate wrap of (err, wrap') \<Rightarrow> (err, ad\<lparr>Ad_Wrapper := Some wrap'\<rparr>))
      | None \<Rightarrow>
          (case Ad_InLine ad of
             Some inline \<Rightarrow>
               (case InLine_Validate inline of
                  (err, inline') \<Rightarrow> (err, ad\<lparr>Ad_InLine := Some inline'\<rparr>))
           | None \<Rightarrow> (Some (New ''empty inline and wrapper''), ad)))"

fun validate_ads :: "nat \<Rightarrow> Ad list \<Rightarrow> error option \<times> Ad list" where
  "validate_ads i [] = (None, [])"
| "validate_ads i (ad # ads) =
     (case Ad_Validate ad of
        (Some err, ad') \<Rightarrow> (Some (Errorf ''bad ad'' i err), ad' # ads)
      | (None, ad') \<Rightarrow>
          (case validate_ads (Suc i) ads of (err, ads') \<Rightarrow> (err, ad' # ads')))"

definition VAST_Validate :: "VAST \<Rightarrow> error option \<times> VAST" where
  "VAST_Validate v =
     (if VAST_Ads v = [] then (Some (New ''empty ads''), v)
      else
        (case validate_ads 0 (VAST_Ads v) of (err, ads') \<Rightarrow> (err, v\<lparr>VAST_Ads := ads'\<rparr>)))"

text \<open>
  What makes a document pass: the conditions that the validation functions test, as
  predicates on the document.
\<close>

definition MediaFile_ok :: "MediaFile \<Rightarrow> bool" where
  "MediaFile_ok m \<longleftrightarrow>
     MediaFile_URI m \<noteq> [] \<and> MediaFile_Type m \<noteq> [] \<and>
     MediaFile_Width m \<noteq> 0 \<and> MediaFile_Height m \<noteq> 0"

definition Linear_ok :: "Linear \<Rightarrow> bool" where
  "Linear_ok l \<longleftrightarrow>
     Linear_MediaFiles l \<noteq> [] \<and> list_all MediaFile_ok (Linear_MediaFiles l) \<and>
     list_all (\<lambda>t. Tracking_URI t \<noteq> [] \<longrightarrow> Tracking_Event t \<noteq> []) (Linear_TrackingEvents l)"

definition Creative_ok :: "Creative \<Rightarrow> bool" where
  "Creative_ok c \<longleftrightarrow>
     (case Creative_Linear c of
        Some l \<Rightarrow> Linear_ok l
      | None \<Rightarrow> Creative_NonLinearAds c \<noteq> None)"

definition InLine_ok :: "InLine \<Rightarrow> bool" where
  "InLine_ok inline \<longleftrightarrow>
     InLine_Creatives inline \<noteq> [] \<and> list_all Creative_ok (InLine_Creatives inline)"

definition Ad_ok :: "Ad \<Rightarrow> bool" where
  "Ad_ok ad \<longleftrightarrow>
     (case Ad_Wrapper ad of
        Some wrap \<Rightarrow> True
      | None \<Rightarrow> (case Ad_InLine ad of Some inline \<Rightarrow> InLine_ok inline | None \<Rightarrow> False))"

definition VAST_ok :: "VAST \<Rightarrow> bool" where
  "VAST_ok v \<longleftrightarrow> VAST_Ads v \<noteq> [] \<and> list_all Ad_ok (VAST_Ads v)"

text \<open>
  The hypothesis of the specification's property of \<open>Validate\<close>: some \<open>Ad\<close> has an
  \<open>InLine\<close> with a \<open>Creative\<close> whose \<open>Linear\<close> holds a \<open>MediaFile\<close> that passes
  \<open>MediaFile.Validate\<close>.
\<close>

definition has_valid_MediaFile :: "VAST \<Rightarrow> bool" where
  "has_valid_MediaFile v \<longleftrightarrow>
     list_ex (\<lambda>ad. case Ad_InLine ad of
          None \<Rightarrow> False
        | Some inline \<Rightarrow>
            list_ex (\<lambda>c. case Creative_Linear c of
                 None \<Rightarrow> False
               | Some l \<Rightarrow> list_ex (\<lambda>m. MediaFile_Validate m = None) (Linear_MediaFiles l))
              (InLine_Creatives inline))
       (VAST_Ads v)"

section \<open>Secure URLs\<close>

text \<open>
  \<open>SetSecure\<close> writes through the pointers and into the backing arrays of the
  document, so each function returns its receiver as it has become.
\<close>

definition Creative_SetSecure :: "Creative \<Rightarrow> bool \<Rightarrow> Creative" where
  "Creative_SetSecure creative secure =
     (case Creative_Linear creative of
        Some lin \<Rightarrow>
          creative\<lparr>Creative_Linear := Some
            (lin\<lparr>Linear_TrackingEvents :=
                      map (\<lambda>t. t\<lparr>Tracking_URI := SecureUrl (Tracking_URI t) secure\<rparr>)
                        (Linear_TrackingEvents lin),
                    Linear_VideoClicks :=
                      map_option
                        (\<lambda>click. click\<lparr>VideoClicks_ClickTrackings :=
                             map (\<lambda>t. t\<lparr>VideoClick_URI := SecureUrl (VideoClick_URI t) secure\<rparr>)
                               (VideoClicks_ClickTrackings click),
                           VideoClicks_ClickThroughs :=
                             map (\<lambda>t. t\<lparr>VideoClick_URI := SecureUrl (VideoClick_URI t) secure\<rparr>)
                               (VideoClicks_ClickThroughs click)\<rparr>)
                        (Linear_VideoClicks lin),
                    Linear_MediaFiles :=
                      map (\<lambda>t. t\<lparr>MediaFile_URI := SecureUrl (MediaFile_URI t) secure\<rparr>)
                        (Linear_MediaFiles lin)\<rparr>)\<rparr>
      | None \<Rightarrow>
          (case Creative_NonLinearAds creative of
             Some nonlinear \<Rightarrow>
               creative\<lparr>Creative_NonLinearAds := Some
                 (nonlinear\<lparr>NonLinearAds_TrackingEvents :=
                    map (\<lambda>t. t\<lparr>Tracking_URI := SecureUrl (Tracking_URI t) secure\<rparr>)
                      (NonLinearAds_TrackingEvents nonlinear)\<rparr>)\<rparr>
           | None \<Rightarrow> creative))"

definition InLine_SetSecure :: "InLine \<Rightarrow> bool \<Rightarrow> InLine" where
  "InLine_SetSecure inline secure =
     inline\<lparr>InLine_Creatives :=
              map (\<lambda>c. Creative_SetSecure c secure) (InLine_Creatives inline),
            InLine_ViewableImpression :=
              map (\<lambda>imp. imp\<lparr>Viewable_URI := SecureUrl (Viewable_URI imp) secure\<rparr>)
                (InLine_ViewableImpression inline),
            InLine_Impressions :=
              map (\<lambda>imp. imp\<lparr>Impression_URI := SecureUrl (Impression_URI imp) secure\<rparr>)
                (InLine_Impressions inline),
            InLine_Errors :=
              map (\<lambda>imp. imp\<lparr>CDATA := SecureUrl (CDATA imp) secure\<rparr>) (InLine_Errors inline)\<rparr>"

text \<open>The branch of a wrapper is empty: its call is commented out in the source.\<close>

definition Ad_SetSecure :: "Ad \<Rightarrow> bool \<Rightarrow> Ad" where
  "Ad_SetSecure ad secure =
     (case Ad_Wrapper ad of
        Some wrap \<Rightarrow> ad
      | None \<Rightarrow>
          (case Ad_InLine ad of
             Some inline \<Rightarrow> ad\<lparr>Ad_InLine := Some (InLine_SetSecure inline secure)\<rparr>
           | None \<Rightarrow> ad))"

definition VAST_SetSecure :: "VAST \<Rightarrow> bool \<Rightarrow> VAST" where
  "VAST_SetSecure v secure =
     v\<lparr>VAST_Errors := map (\<lambda>imp. imp\<lparr>CDATA := SecureUrl (CDATA imp) secure\<rparr>) (VAST_Errors v),
       VAST_Ads := map (\<lambda>ad. Ad_SetSecure ad secure) (VAST_Ads v)\<rparr>"

section \<open>The Extension codec\<close>

text \<open>
  \<open>xml.StartElement\<close>, with each \<open>xml.Name\<close> as the pair of its \<open>Space\<close> and \<open>Local\<close>.
\<close>

record StartElement =
  StartElement_Name :: "string \<times> string"
  StartElement_Attr :: "((string \<times> string) \<times> string) list"

text \<open>
  \<open>Extension.UnmarshalXML\<close>. The decoder is the XML library's: what
  \<^verbatim>\<open>dec.DecodeElement(&e2, &start)\<close> returns, an error or the decoded \<open>e2\<close> of the type
  \<open>extension\<close> (which has the fields of \<open>Extension\<close>), is the argument \<open>decoded\<close>.

  The loop over the attributes ranges over the map \<open>e.Attributes\<close> and assigns to the
  keys that it meets. Go visits each entry of such a map once, in an order of its own
  choice; the model takes the order of the list.
\<close>

definition copy_attributes :: "(string \<times> string) list \<Rightarrow> (string \<times> string) list \<Rightarrow>
    (string \<times> string) list" where
  "copy_attributes entries attributes =
     fold (\<lambda>(name, val) attrs.
             if name \<noteq> ''name'' \<and> name \<noteq> ''type'' then AList.update name val attrs else attrs)
       entries attributes"

definition UnmarshalXML :: "Extension \<Rightarrow> error + Extension \<Rightarrow> StartElement \<Rightarrow>
    error option \<times> Extension" where
  "UnmarshalXML e decoded start =
     (case decoded of
        Inl err \<Rightarrow> (Some err, e)
      | Inr e2 \<Rightarrow>
          (let e1 = e\<lparr>Extension_Type := Extension_Type e2,
                      Extension_Name := Extension_Name e2,
                      Extension_CustomTracking := Extension_CustomTracking e2\<rparr>;
               e3 = (if Extension_CustomTracking e1 = []
                     then e1\<lparr>Extension_Data := Extension_Data e2\<rparr> else e1);
               e4 = (if StartElement_Attr start \<noteq> []
                     then e3\<lparr>Extension_Attributes :=
                            copy_attributes (Extension_Attributes e3) (Extension_Attributes e3)\<rparr>
                     else e3)
           in (None, e4)))"

section \<open>Slices that share a backing array\<close>

text \<open>
  \<open>FilterFormat\<close> and \<open>FilterSize\<close> build the slice \<open>media\<close> from
  \<^verbatim>\<open>MediaFiles[:0]\<close>, which has the backing array of \<open>MediaFiles\<close>, and append to it while
  they range over \<open>MediaFiles\<close>. What they read therefore depends on what they have
  written, and the model keeps the array: a pair of the backing array of
  \<open>MediaFiles\<close> (its elements, followed by the slots of its spare capacity) and of the
  slice \<open>media\<close>, which is either \<open>Shared k\<close>, the first \<open>k\<close> slots of that array, or
  \<open>Fresh xs\<close>, an array of its own, once \<open>append\<close> had to grow it.
\<close>

datatype 'a dest = Shared nat | Fresh "'a list"

type_synonym 'a filling = "'a list \<times> 'a dest"

text \<open>\<^verbatim>\<open>media = append(media, m)\<close>\<close>

fun append_to :: "'a filling \<Rightarrow> 'a \<Rightarrow> 'a filling" where
  "append_to (arr, Shared k) m =
     (if k < length arr then (arr[k := m], Shared (Suc k))
      else (arr, Fresh (take k arr @ [m])))"
| "append_to (arr, Fresh xs) m = (arr, Fresh (xs @ [m]))"

text \<open>The elements of \<open>media\<close>.\<close>

fun elements :: "'a filling \<Rightarrow> 'a list" where
  "elements (arr, Shared k) = take k arr"
| "elements (arr, Fresh xs) = xs"

text \<open>
  \<^verbatim>\<open>for _, m := range MediaFiles { body }\<close>, for a slice of length \<open>n\<close>: the length is
  read once, and the element \<open>i\<close> is read from the array at the iteration \<open>i\<close>.
\<close>

definition range_loop :: "nat \<Rightarrow> ('a \<Rightarrow> 'a filling \<Rightarrow> 'a filling) \<Rightarrow> 'a filling \<Rightarrow> 'a filling" where
  "range_loop n body st = fold (\<lambda>i st. body (fst st ! i) st) [0..<n] st"

section \<open>Media selection by format\<close>

definition format_step :: "string \<Rightarrow> MediaFile \<Rightarrow> MediaFile filling \<Rightarrow> MediaFile filling" where
  "format_step f m st = (if MediaFile_Type m = f then append_to st m else st)"

text \<open>
  \<open>VAST.FilterFormat\<close>. The argument \<open>spare\<close> is the spare capacity of \<open>MediaFiles\<close>,
  the slots of its backing array behind its elements, which the elements of the
  document do not determine.
\<close>

definition FilterFormat :: "MediaFile list \<Rightarrow> string list \<Rightarrow> VAST \<Rightarrow> failure + VAST" where
  "FilterFormat spare format v =
     (case VAST_Ads v of
        [] \<Rightarrow> Inl (Panic IndexOutOfRange)
      | ad # ads \<Rightarrow>
          (case Ad_InLine ad of
             None \<Rightarrow> Inl (Error (New ''not inline''))
           | Some inline \<Rightarrow>
               (case InLine_Creatives inline of
                  [] \<Rightarrow> Inl (Panic IndexOutOfRange)
                | c # cs \<Rightarrow>
                    (case Creative_Linear c of
                       None \<Rightarrow> Inl (Panic NilDereference)
                     | Some lin \<Rightarrow>
                         (let n = length (Linear_MediaFiles lin);
                              st = fold (\<lambda>f. range_loop n (format_step f)) format
                                     (Linear_MediaFiles lin @ spare, Shared 0);
                              media = elements st
                          in if media = [] then Inl (Error (New ''empty media by format''))
                             else Inr (v\<lparr>VAST_Ads :=
                                    ad\<lparr>Ad_InLine := Some (inline\<lparr>InLine_Creatives :=
                                      c\<lparr>Creative_Linear := Some
                                        (lin\<lparr>Linear_MediaFiles := media\<rparr>)\<rparr> # cs\<rparr>)\<rparr>
                                    # ads\<rparr>))))))"

section \<open>Floating point\<close>

text \<open>
  The values of \<open>float64\<close>, the binary64 format of IEEE 754: the finite ones as the
  rational number they denote, the two infinities and the NaN. The two zeros are one
  value, which is sound where no zero with a sign is divided by: the only divisor of
  \<open>FilterSize\<close> is converted from an integer, and so it is no negative zero.

  \<open>binary64 x\<close> is the \<open>float64\<close> nearest to \<open>x\<close>, the even one of two that are as near:
  \<open>x\<close> is rounded to a multiple of \<open>2 powi (e - 52)\<close>, where \<open>2 powi e \<le> \<bar>x\<bar> < 2 powi (e + 1)\<close>
  and \<open>e\<close> is at least \<open>- 1022\<close>, and a result of \<open>2 powi 1024\<close> or more is infinite.
\<close>

datatype f64 = Finite rat | PosInf | NegInf | NaN

definition round_half_even :: "rat \<Rightarrow> int" where
  "round_half_even t =
     (let f = \<lfloor>t\<rfloor>; d = t - of_int f
      in if d < 1 / 2 then f else if 1 / 2 < d then f + 1 else if even f then f else f + 1)"

definition exponent :: "rat \<Rightarrow> int" where
  "exponent x =
     (case quotient_of \<bar>x\<bar> of
        (p, q) \<Rightarrow> (let d = bitlen p - bitlen q in if 2 powi d \<le> \<bar>x\<bar> then d else d - 1))"

definition binary64 :: "rat \<Rightarrow> f64" where
  "binary64 x =
     (if x = 0 then Finite 0
      else
        (let e = max (exponent x) (- 1022);
             u = 2 powi (e - 52);
             r = of_int (round_half_even (x / u)) * u
         in if 2 powi 1024 \<le> \<bar>r\<bar> then (if 0 < x then PosInf else NegInf) else Finite r))"

text \<open>The conversion \<^verbatim>\<open>float64(i)\<close> of an \<open>int\<close>, and the operations of \<open>float64\<close>.\<close>

definition f64_of_int :: "go_int \<Rightarrow> f64" where
  "f64_of_int i = binary64 (of_int (sint i))"

fun f64_mul :: "f64 \<Rightarrow> f64 \<Rightarrow> f64" where
  "f64_mul NaN y = NaN"
| "f64_mul x NaN = NaN"
| "f64_mul (Finite a) (Finite b) = binary64 (a * b)"
| "f64_mul (Finite a) PosInf = (if a = 0 then NaN else if 0 < a then PosInf else NegInf)"
| "f64_mul (Finite a) NegInf = (if a = 0 then NaN else if 0 < a then NegInf else PosInf)"
| "f64_mul PosInf (Finite b) = (if b = 0 then NaN else if 0 < b then PosInf else NegInf)"
| "f64_mul NegInf (Finite b) = (if b = 0 then NaN else if 0 < b then NegInf else PosInf)"
| "f64_mul PosInf PosInf = PosInf"
| "f64_mul PosInf NegInf = NegInf"
| "f64_mul NegInf PosInf = NegInf"
| "f64_mul NegInf NegInf = PosInf"

fun f64_div :: "f64 \<Rightarrow> f64 \<Rightarrow> f64" where
  "f64_div NaN y = NaN"
| "f64_div x NaN = NaN"
| "f64_div (Finite a) (Finite b) =
     (if b = 0 then (if a = 0 then NaN else if 0 < a then PosInf else NegInf)
      else binary64 (a / b))"
| "f64_div (Finite a) PosInf = Finite 0"
| "f64_div (Finite a) NegInf = Finite 0"
| "f64_div PosInf (Finite b) = (if 0 \<le> b then PosInf else NegInf)"
| "f64_div NegInf (Finite b) = (if 0 \<le> b then NegInf else PosInf)"
| "f64_div PosInf PosInf = NaN"
| "f64_div PosInf NegInf = NaN"
| "f64_div NegInf PosInf = NaN"
| "f64_div NegInf NegInf = NaN"

fun f64_sub :: "f64 \<Rightarrow> f64 \<Rightarrow> f64" where
  "f64_sub NaN y = NaN"
| "f64_sub x NaN = NaN"
| "f64_sub (Finite a) (Finite b) = binary64 (a - b)"
| "f64_sub (Finite a) PosInf = NegInf"
| "f64_sub (Finite a) NegInf = PosInf"
| "f64_sub PosInf (Finite b) = PosInf"
| "f64_sub NegInf (Finite b) = NegInf"
| "f64_sub PosInf PosInf = NaN"
| "f64_sub PosInf NegInf = PosInf"
| "f64_sub NegInf PosInf = NegInf"
| "f64_sub NegInf NegInf = NaN"

text \<open>\<^verbatim>\<open>math.Abs\<close>, and the comparison \<open><\<close>, which is false when a side is NaN.\<close>

fun f64_abs :: "f64 \<Rightarrow> f64" where
  "f64_abs (Finite a) = Finite \<bar>a\<bar>"
| "f64_abs PosInf = PosInf"
| "f64_abs NegInf = PosInf"
| "f64_abs NaN = NaN"

fun f64_less :: "f64 \<Rightarrow> f64 \<Rightarrow> bool" where
  "f64_less NaN y = False"
| "f64_less x NaN = False"
| "f64_less (Finite a) (Finite b) = (a < b)"
| "f64_less (Finite a) PosInf = True"
| "f64_less (Finite a) NegInf = False"
| "f64_less PosInf y = False"
| "f64_less NegInf (Finite b) = True"
| "f64_less NegInf PosInf = True"
| "f64_less NegInf NegInf = False"

section \<open>Media selection by size\<close>

text \<open>
  The body of the first loop of \<open>FilterSize\<close>, with its two tests, and the value that
  the second loop computes for a media file, as \<open>qr1\<close> for the loop variable and as
  \<open>qr2\<close> for the best media file so far.
\<close>

definition size_step :: "go_int \<Rightarrow> go_int \<Rightarrow> MediaFile \<Rightarrow> MediaFile filling \<Rightarrow> MediaFile filling" where
  "size_step w h m st =
     (let st1 = (if 0 <s w - h \<and> 0 <s MediaFile_Width m - MediaFile_Height m
                 then append_to st m else st);
          st2 = (if w - h <s 0 \<and> MediaFile_Width m - MediaFile_Height m <s 0
                 then append_to st1 m else st1)
      in st2)"

definition deviation :: "go_int \<Rightarrow> go_int \<Rightarrow> MediaFile \<Rightarrow> f64" where
  "deviation w h m =
     (let q1 = f64_of_int (MediaFile_Width m * MediaFile_Height m);
          q = f64_of_int (w * h)
      in f64_abs (f64_sub (f64_div (f64_mul q1 (Finite 100)) q) (Finite 100)))"

definition better :: "go_int \<Rightarrow> go_int \<Rightarrow> MediaFile \<Rightarrow> MediaFile \<Rightarrow> MediaFile" where
  "better w h m best = (if f64_less (deviation w h m) (deviation w h best) then m else best)"

definition FilterSize :: "MediaFile list \<Rightarrow> go_int \<Rightarrow> go_int \<Rightarrow> VAST \<Rightarrow> failure + VAST" where
  "FilterSize spare w h v =
     (case VAST_Ads v of
        [] \<Rightarrow> Inl (Panic IndexOutOfRange)
      | ad # ads \<Rightarrow>
          (case Ad_InLine ad of
             None \<Rightarrow> Inl (Error (New ''not inline''))
           | Some inline \<Rightarrow>
               (case InLine_Creatives inline of
                  [] \<Rightarrow> Inl (Panic IndexOutOfRange)
                | c # cs \<Rightarrow>
                    (case Creative_Linear c of
                       None \<Rightarrow> Inl (Panic NilDereference)
                     | Some lin \<Rightarrow>
                         (let n = length (Linear_MediaFiles lin);
                              st = range_loop n (size_step w h)
                                     (Linear_MediaFiles lin @ spare, Shared 0);
                              media = elements st
                          in if media = [] then Inl (Error (New ''empty media by size''))
                             else
                               (let best = fold (better w h) media (hd media);
                                    best' = best\<lparr>MediaFile_Width := w, MediaFile_Height := h\<rparr>
                                in Inr (v\<lparr>VAST_Ads :=
                                     ad\<lparr>Ad_InLine := Some (inline\<lparr>InLine_Creatives :=
                                       c\<lparr>Creative_Linear := Some
                                         (lin\<lparr>Linear_MediaFiles := [best']\<rparr>)\<rparr> # cs\<rparr>)\<rparr>
                                     # ads\<rparr>)))))))"

text \<open>
  The words of the specification: a media file is a candidate when the sign of its
  width minus its height is the sign of the target's, and the deviation of its area
  from the target's is a percentage, here in exact arithmetic.
\<close>

definition same_orientation :: "go_int \<Rightarrow> go_int \<Rightarrow> MediaFile \<Rightarrow> bool" where
  "same_orientation w h m \<longleftrightarrow>
     sgn (sint (MediaFile_Width m - MediaFile_Height m)) = sgn (sint (w - h)) \<and>
     sgn (sint (w - h)) \<noteq> 0"

definition exact_deviation :: "go_int \<Rightarrow> go_int \<Rightarrow> MediaFile \<Rightarrow> rat" where
  "exact_deviation w h m =
     \<bar>of_int (sint (MediaFile_Width m * MediaFile_Height m)) / of_int (sint (w * h)) * 100 - 100\<bar>"

section \<open>Notions for the properties of the media selection\<close>

text \<open>
  The media files of the \<open>Linear\<close> of the first creative of the first ad, when that
  ad is inline, has a creative and its first creative has a \<open>Linear\<close>; and the
  document with other media files in that place, which is the assignment
  \<^verbatim>\<open>v.Ads[0].InLine.Creatives[0].Linear.MediaFiles = ms\<close>.
\<close>

definition first_MediaFiles :: "VAST \<Rightarrow> MediaFile list option" where
  "first_MediaFiles v =
     (case VAST_Ads v of
        [] \<Rightarrow> None
      | ad # ads \<Rightarrow>
          (case Ad_InLine ad of
             None \<Rightarrow> None
           | Some inline \<Rightarrow>
               (case InLine_Creatives inline of
                  [] \<Rightarrow> None
                | c # cs \<Rightarrow> map_option Linear_MediaFiles (Creative_Linear c))))"

definition put_MediaFiles :: "VAST \<Rightarrow> MediaFile list \<Rightarrow> VAST" where
  "put_MediaFiles v ms =
     (case VAST_Ads v of
        [] \<Rightarrow> v
      | ad # ads \<Rightarrow>
          (case Ad_InLine ad of
             None \<Rightarrow> v
           | Some inline \<Rightarrow>
               (case InLine_Creatives inline of
                  [] \<Rightarrow> v
                | c # cs \<Rightarrow>
                    (case Creative_Linear c of
                       None \<Rightarrow> v
                     | Some lin \<Rightarrow>
                         v\<lparr>VAST_Ads :=
                           ad\<lparr>Ad_InLine := Some (inline\<lparr>InLine_Creatives :=
                             c\<lparr>Creative_Linear := Some (lin\<lparr>Linear_MediaFiles := ms\<rparr>)\<rparr> # cs\<rparr>)\<rparr>
                           # ads\<rparr>))))"

text \<open>
  The documents on which the media selection indexes an empty slice or dereferences
  a nil pointer: those without an ad, and those whose first ad is inline and has no
  creative, or a first creative without a \<open>Linear\<close>. The documents whose first ad is
  not inline. The outcomes that are a panic.
\<close>

definition missing_first_Linear :: "VAST \<Rightarrow> bool" where
  "missing_first_Linear v \<longleftrightarrow>
     (case VAST_Ads v of
        [] \<Rightarrow> True
      | ad # ads \<Rightarrow>
          (case Ad_InLine ad of
             None \<Rightarrow> False
           | Some inline \<Rightarrow>
               (case InLine_Creatives inline of
                  [] \<Rightarrow> True
                | c # cs \<Rightarrow> Creative_Linear c = None)))"

definition not_inline :: "VAST \<Rightarrow> bool" where
  "not_inline v \<longleftrightarrow> (case VAST_Ads v of [] \<Rightarrow> False | ad # ads \<Rightarrow> Ad_InLine ad = None)"

definition panics :: "failure + VAST \<Rightarrow> bool" where
  "panics r \<longleftrightarrow> (case r of Inl (Panic p) \<Rightarrow> True | Inl (Error e) \<Rightarrow> False | Inr v \<Rightarrow> False)"

text \<open>
  The invariant of the passes of \<open>FilterFormat\<close> over a slice of length \<open>n\<close> that
  held the media files \<open>ms\<close> at first: the slots that are read hold media files of
  \<open>ms\<close>, and \<open>media\<close> holds media files of \<open>ms\<close> with a type among \<open>F\<close>.
\<close>

definition sound :: "nat \<Rightarrow> MediaFile list \<Rightarrow> string set \<Rightarrow> MediaFile filling \<Rightarrow> bool" where
  "sound n ms F st \<longleftrightarrow>
     n \<le> length (fst st) \<and> set (take n (fst st)) \<subseteq> set ms \<and>
     set (elements st) \<subseteq> {m \<in> set ms. MediaFile_Type m \<in> F}"

text \<open>The two tests of the first loop of \<open>FilterSize\<close>, as one predicate.\<close>

definition oriented :: "go_int \<Rightarrow> go_int \<Rightarrow> MediaFile \<Rightarrow> bool" where
  "oriented w h m \<longleftrightarrow>
     0 <s w - h \<and> 0 <s MediaFile_Width m - MediaFile_Height m \<or>
     w - h <s 0 \<and> MediaFile_Width m - MediaFile_Height m <s 0"

text \<open>
  \<open>selects dev xs i\<close>: the candidate \<open>i\<close> of \<open>xs\<close> is the first one with the smallest
  \<open>dev\<close>, that is, no candidate has a smaller one and every candidate in front of it
  has a greater one.
\<close>

definition selects :: "('a \<Rightarrow> f64) \<Rightarrow> 'a list \<Rightarrow> nat \<Rightarrow> bool" where
  "selects dev xs i \<longleftrightarrow>
     i < length xs \<and>
     (\<forall>j < length xs. \<not> f64_less (dev (xs ! j)) (dev (xs ! i))) \<and>
     (\<forall>j < i. f64_less (dev (xs ! i)) (dev (xs ! j)))"

section \<open>Zero values and sample documents\<close>

definition zero_CDATAString :: CDATAString where
  "zero_CDATAString = \<lparr>CDATA = []\<rparr>"

definition zero_MediaFile :: MediaFile where
  "zero_MediaFile =
     \<lparr>MediaFile_ID = [], MediaFile_Delivery = [], MediaFile_Type = [], MediaFile_Codec = [],
      MediaFile_Bitrate = 0, MediaFile_MinBitrate = 0, MediaFile_MaxBitrate = 0,
      MediaFile_Width = 0, MediaFile_Height = 0, MediaFile_Scalable = False,
      MediaFile_MaintainAspectRatio = False, MediaFile_APIFramework = [], MediaFile_URI = []\<rparr>"

definition zero_Linear :: Linear where
  "zero_Linear =
     \<lparr>Linear_SkipOffset = None, Linear_Duration = [], Linear_AdParameters = None,
      Linear_Icons = None, Linear_TrackingEvents = [], Linear_VideoClicks = None,
      Linear_MediaFiles = []\<rparr>"

definition zero_Creative :: Creative where
  "zero_Creative =
     \<lparr>Creative_ID = [], Creative_Sequence = 0, Creative_AdID = [], Creative_APIFramework = [],
      Creative_Linear = None, Creative_CompanionAds = None, Creative_NonLinearAds = None\<rparr>"

definition zero_InLine :: InLine where
  "zero_InLine =
     \<lparr>InLine_AdSystem = None, InLine_AdTitle = zero_CDATAString, InLine_Impressions = [],
      InLine_ViewableImpression = [], InLine_Creatives = [],
      InLine_Description = zero_CDATAString, InLine_Advertiser = [],
      InLine_Survey = zero_CDATAString, InLine_Errors = [], InLine_Pricing = [],
      InLine_Extensions = []\<rparr>"

definition zero_Wrapper :: Wrapper where
  "zero_Wrapper =
     \<lparr>Wrapper_AdSystem = None, Wrapper_VASTAdTagURI = zero_CDATAString,
      Wrapper_Impressions = [], Wrapper_ViewableImpression = [], Wrapper_Errors = [],
      Wrapper_Creatives = [], Wrapper_Extensions = [], Wrapper_FallbackOnNoAd = None,
      Wrapper_AllowMultipleAds = None, Wrapper_FollowAdditionalWrappers = None\<rparr>"

definition zero_Ad :: Ad where
  "zero_Ad = \<lparr>Ad_ID = [], Ad_Sequence = 0, Ad_InLine = None, Ad_Wrapper = None\<rparr>"

definition zero_VAST :: VAST where
  "zero_VAST = \<lparr>VAST_Version = [], VAST_Ads = [], VAST_Errors = []\<rparr>"

definition zero_Extension :: Extension where
  "zero_Extension =
     \<lparr>Extension_Type = [], Extension_Name = [], Extension_CustomTracking = [],
      Extension_Data = [], Extension_Attributes = []\<rparr>"

text \<open>A media file of the given type and size, and a document of one inline ad with
  one linear creative that holds the given media files.\<close>

definition media :: "string \<Rightarrow> go_int \<Rightarrow> go_int \<Rightarrow> MediaFile" where
  "media ty w h =
     zero_MediaFile\<lparr>MediaFile_Type := ty, MediaFile_Width := w, MediaFile_Height := h,
       MediaFile_URI := ''http://cdn.example/v''\<rparr>"

definition linear_creative :: "MediaFile list \<Rightarrow> Creative" where
  "linear_creative ms =
     zero_Creative\<lparr>Creative_Linear := Some (zero_Linear\<lparr>Linear_MediaFiles := ms\<rparr>)\<rparr>"

definition inline_ad :: "InLine \<Rightarrow> Ad" where
  "inline_ad inline = zero_Ad\<lparr>Ad_InLine := Some inline\<rparr>"

definition wrapper_ad :: "Wrapper \<Rightarrow> Ad" where
  "wrapper_ad wrap = zero_Ad\<lparr>Ad_Wrapper := Some wrap\<rparr>"

definition inline_doc :: "MediaFile list \<Rightarrow> VAST" where
  "inline_doc ms =
     zero_VAST\<lparr>VAST_Ads := [inline_ad (zero_InLine\<lparr>InLine_Creatives := [linear_creative ms]\<rparr>)]\<rparr>"

text \<open>What \<open>Wrapper.Validate\<close> makes of a wrapper.\<close>

definition Wrapper_filtered :: "Wrapper \<Rightarrow> Wrapper" where
  "Wrapper_filtered wrap =
     wrap\<lparr>Wrapper_Impressions :=
            filter (\<lambda>imp. Impression_URI imp \<noteq> []) (Wrapper_Impressions wrap),
          Wrapper_ViewableImpression :=
            filter (\<lambda>imp. Viewable_URI imp \<noteq> []) (Wrapper_ViewableImpression wrap)\<rparr>"

text \<open>A wrapper ad with an empty \<open>VASTAdTagURI\<close>, no creatives and two impressions, one
  of them without a URI; and a document with an error URI and a wrapper ad.\<close>

definition empty_wrapper_doc :: VAST where
  "empty_wrapper_doc =
     zero_VAST\<lparr>VAST_Ads := [wrapper_ad (zero_Wrapper\<lparr>Wrapper_Impressions :=
        [\<lparr>Impression_ID = [], Impression_URI = []\<rparr>,
         \<lparr>Impression_ID = [], Impression_URI = ''http://t.example/i''\<rparr>]\<rparr>)]\<rparr>"

definition wrapper_doc :: VAST where
  "wrapper_doc =
     zero_VAST\<lparr>VAST_Errors := [\<lparr>CDATA = ''http://t.example/e''\<rparr>],
       VAST_Ads := [wrapper_ad (zero_Wrapper\<lparr>Wrapper_Impressions :=
         [\<lparr>Impression_ID = [], Impression_URI = ''http://t.example/i''\<rparr>]\<rparr>)]\<rparr>"

text \<open>The start element of \<^verbatim>\<open><Extension type="t" foo="bar"/>\<close>.\<close>

definition foo_start :: StartElement where
  "foo_start =
     \<lparr>StartElement_Name = ([], ''Extension''),
      StartElement_Attr = [(([], ''type''), ''t''), (([], ''foo''), ''bar'')]\<rparr>"

text \<open>An inline ad whose impression and whose error URI have spaces around them.\<close>

definition untrimmed_inline :: InLine where
  "untrimmed_inline =
     zero_InLine\<lparr>InLine_Creatives := [linear_creative [media ''video/mp4'' 640 360]],
       InLine_Impressions := [\<lparr>Impression_ID = [], Impression_URI = '' http://t.example/i ''\<rparr>],
       InLine_Errors := [\<lparr>CDATA = '' http://t.example/e ''\<rparr>]\<rparr>"

text \<open>An inline ad without a creative, an inline ad whose creative has no \<open>Linear\<close>,
  and a document with three landscape media files and a portrait one.\<close>

definition no_creative_doc :: VAST where
  "no_creative_doc = zero_VAST\<lparr>VAST_Ads := [inline_ad zero_InLine]\<rparr>"

definition no_linear_doc :: VAST where
  "no_linear_doc =
     zero_VAST\<lparr>VAST_Ads := [inline_ad (zero_InLine\<lparr>InLine_Creatives := [zero_Creative]\<rparr>)]\<rparr>"

definition sized_doc :: VAST where
  "sized_doc =
     inline_doc [media ''mp4'' 1280 720, media ''mp4'' 720 1280, media ''webm'' 1920 1080,
       media ''mpg'' 2560 1440]"

section \<open>Facts about \<open>Replace\<close> and \<open>SecureUrl\<close>\<close>

lemma Replace_Nil [simp]: "old \<noteq> [] \<Longrightarrow> Replace [] old new = []"
  by (simp add: Replace.simps)

lemma Replace_Cons:
  "old \<noteq> [] \<Longrightarrow> Replace (c # cs) old new =
     (if prefix old (c # cs) then new @ Replace (drop (length old) (c # cs)) old new
      else c # Replace cs old new)"
  by (subst Replace.simps) simp

lemma Replace_absent:
  "old \<noteq> [] \<Longrightarrow> \<not> sublist old s \<Longrightarrow> Replace s old new = s"
proof (induction s)
  case Nil
  then show ?case by simp
next
  case (Cons c cs)
  then show ?case by (auto simp: Replace_Cons sublist_Cons_right)
qed

lemma length_Replace_le:
  "old \<noteq> [] \<Longrightarrow> length (Replace s old []) \<le> length s"
proof (induction s old "[] :: string" rule: Replace.induct)
  case (1 s old)
  show ?case
  proof (cases s)
    case Nil
    with 1 show ?thesis by simp
  next
    case (Cons c cs)
    show ?thesis
    proof (cases "prefix old s")
      case True
      with 1 Cons
      have "length (Replace (drop (length old) s) old []) \<le> length (drop (length old) s)"
        by simp
      with True 1 Cons show ?thesis by (simp add: Replace_Cons)
    next
      case False
      with 1 Cons have "length (Replace (tl s) old []) \<le> length (tl s)" by simp
      with False 1 Cons show ?thesis by (simp add: Replace_Cons)
    qed
  qed
qed

text \<open>A replacement by the empty string that keeps the length has found nothing.\<close>

lemma Replace_same_length_absent:
  "old \<noteq> [] \<Longrightarrow> length (Replace s old []) = length s \<Longrightarrow> \<not> sublist old s"
proof (induction s)
  case Nil
  then show ?case by simp
next
  case (Cons c cs)
  show ?case
  proof (cases "prefix old (c # cs)")
    case True
    have "length (Replace (drop (length old) (c # cs)) old [])
            \<le> length (drop (length old) (c # cs))"
      using Cons.prems(1) by (rule length_Replace_le)
    moreover have "length (drop (length old) (c # cs)) < length (c # cs)"
      using Cons.prems(1) by (cases old) auto
    ultimately have "length (Replace (drop (length old) (c # cs)) old []) < length (c # cs)"
      by (rule le_less_trans)
    moreover have "Replace (c # cs) old [] = Replace (drop (length old) (c # cs)) old []"
      using True Cons.prems(1) by (simp add: Replace_Cons)
    ultimately have "length (Replace (c # cs) old []) < length (c # cs)"
      by (simp only:)
    with Cons.prems(2) show ?thesis by simp
  next
    case False
    with Cons show ?thesis by (auto simp: Replace_Cons sublist_Cons_right)
  qed
qed

lemma set_Replace_subset: "old \<noteq> [] \<Longrightarrow> set (Replace s old []) \<subseteq> set s"
proof (induction s old "[] :: string" rule: Replace.induct)
  case (1 s old)
  show ?case
  proof (cases s)
    case Nil
    with 1 show ?thesis by simp
  next
    case (Cons c cs)
    show ?thesis
    proof (cases "prefix old s")
      case True
      with 1 Cons
      have "set (Replace (drop (length old) s) old []) \<subseteq> set (drop (length old) s)"
        by simp
      moreover have "set (drop (length old) s) \<subseteq> set s" by (rule set_drop_subset)
      ultimately have "set (Replace (drop (length old) s) old []) \<subseteq> set s"
        by (rule subset_trans)
      moreover have "Replace s old [] = Replace (drop (length old) s) old []"
        using True 1 Cons by (simp add: Replace_Cons)
      ultimately show ?thesis by (simp only:)
    next
      case False
      with 1 Cons have "set (Replace (tl s) old []) \<subseteq> set (tl s)" by simp
      with False 1 Cons show ?thesis by (auto simp add: Replace_Cons)
    qed
  qed
qed

lemma Replace_char: "Replace s [c] [] = filter (\<lambda>x. x \<noteq> c) s"
  by (induction s) (auto simp: Replace_Cons)

text \<open>\<open>SecureUrl\<close> is the scheme, followed by the stripped and cleaned URL.\<close>

lemma SecureUrl_split: "SecureUrl u s = scheme s @ unspace (strip3 u)"
  by (simp add: SecureUrl_def scheme_def strip3_def unspace_def Replace_char Let_def)

lemma strip_scheme_http:
  "Replace (scheme s @ b) ''http:'' [] =
     (if s then ''https://'' else ''//'') @ Replace b ''http:'' []"
  by (simp add: scheme_def Replace_Cons)

lemma strip_scheme_https:
  "Replace ((if s then ''https://'' else ''//'') @ b) ''https:'' [] =
     ''//'' @ Replace b ''https:'' []"
  by (simp add: Replace_Cons)

lemma strip_scheme_slashes: "Replace (''//'' @ b) ''//'' [] = Replace b ''//'' []"
  by (simp add: Replace_Cons)

lemma strip3_scheme: "strip3 (scheme s @ b) = strip3 b"
  unfolding strip3_def strip_scheme_http strip_scheme_https strip_scheme_slashes ..

lemma set_strip3_subset: "set (strip3 u) \<subseteq> set u"
proof -
  have "set (strip3 u) \<subseteq> set (Replace (Replace u ''http:'' []) ''https:'' [])"
    unfolding strip3_def by (rule set_Replace_subset) simp
  also have "\<dots> \<subseteq> set (Replace u ''http:'' [])" by (rule set_Replace_subset) simp
  also have "\<dots> \<subseteq> set u" by (rule set_Replace_subset) simp
  finally show ?thesis .
qed

lemma unspace_id:
  "CHR '' '' \<notin> set u \<Longrightarrow> CHR 0x09 \<notin> set u \<Longrightarrow> CHR 0x0A \<notin> set u \<Longrightarrow> unspace u = u"
  by (auto simp add: unspace_def filter_id_conv)

lemma unspace_clean:
  "CHR '' '' \<notin> set (unspace u) \<and> CHR 0x09 \<notin> set (unspace u) \<and> CHR 0x0A \<notin> set (unspace u)"
  by (simp add: unspace_def)

lemma unspace_strip3_unspace: "unspace (strip3 (unspace u)) = strip3 (unspace u)"
  using set_strip3_subset [of "unspace u"] unspace_clean [of u]
  by (intro unspace_id) blast+

lemma strip3_fixed_iff:
  "strip3 b = b \<longleftrightarrow> \<not> sublist ''http:'' b \<and> \<not> sublist ''https:'' b \<and> \<not> sublist ''//'' b"
proof
  assume fixed: "strip3 b = b"
  let ?b1 = "Replace b ''http:'' []"
  let ?b2 = "Replace ?b1 ''https:'' []"
  have l3: "length (strip3 b) \<le> length ?b2"
    unfolding strip3_def by (rule length_Replace_le) simp
  have l2: "length ?b2 \<le> length ?b1" by (rule length_Replace_le) simp
  have l1: "length ?b1 \<le> length b" by (rule length_Replace_le) simp
  from fixed l1 l2 l3 have e1: "length ?b1 = length b" and e2: "length ?b2 = length ?b1"
    and e3: "length (strip3 b) = length ?b2"
    by simp_all
  have a1: "\<not> sublist ''http:'' b" using e1 by (intro Replace_same_length_absent) simp_all
  then have b1: "?b1 = b" by (simp add: Replace_absent)
  have a2: "\<not> sublist ''https:'' ?b1" using e2 by (intro Replace_same_length_absent) simp_all
  then have b2: "?b2 = b" using b1 by (simp add: Replace_absent)
  have a3: "\<not> sublist ''//'' ?b2" using e3 unfolding strip3_def
    by (intro Replace_same_length_absent) simp_all
  from a1 a2 a3 b1 b2
  show "\<not> sublist ''http:'' b \<and> \<not> sublist ''https:'' b \<and> \<not> sublist ''//'' b" by simp
next
  assume "\<not> sublist ''http:'' b \<and> \<not> sublist ''https:'' b \<and> \<not> sublist ''//'' b"
  then show "strip3 b = b" by (simp add: strip3_def Replace_absent)
qed

lemma SecureUrl_twice: "SecureUrl (SecureUrl u s) s = scheme s @ strip3 (unspace (strip3 u))"
proof -
  have "SecureUrl (SecureUrl u s) s = scheme s @ unspace (strip3 (scheme s @ unspace (strip3 u)))"
    by (simp only: SecureUrl_split)
  then show ?thesis by (simp only: strip3_scheme unspace_strip3_unspace)
qed

lemma drop_scheme: "drop (if s then 8 else 7) (SecureUrl u s) = unspace (strip3 u)"
  by (simp add: SecureUrl_split scheme_def)

text \<open>
  C4, as the code has it: \<open>SecureUrl u True\<close> begins with \<open>https://\<close> and
  \<open>SecureUrl u False\<close> with \<open>http://\<close>, whatever \<open>u\<close> is. A second application with the
  same flag gives the same string exactly when what follows the scheme in the first
  result contains none of \<open>http:\<close>, \<open>https:\<close> and \<open>//\<close>.
\<close>

theorem SecureUrl_prefix_and_idempotence:
  "prefix (if s then ''https://'' else ''http://'') (SecureUrl u s) \<and>
   (SecureUrl (SecureUrl u s) s = SecureUrl u s \<longleftrightarrow>
      \<not> sublist ''http:'' (drop (if s then 8 else 7) (SecureUrl u s)) \<and>
      \<not> sublist ''https:'' (drop (if s then 8 else 7) (SecureUrl u s)) \<and>
      \<not> sublist ''//'' (drop (if s then 8 else 7) (SecureUrl u s)))"
proof -
  have "prefix (if s then ''https://'' else ''http://'') (SecureUrl u s)"
    by (simp add: SecureUrl_split scheme_def)
  moreover have "SecureUrl (SecureUrl u s) s = SecureUrl u s \<longleftrightarrow>
      strip3 (unspace (strip3 u)) = unspace (strip3 u)"
    by (simp add: SecureUrl_twice) (simp add: SecureUrl_split)
  ultimately show ?thesis
    unfolding drop_scheme strip3_fixed_iff by simp
qed

text \<open>
  C4, witness: a URL with a scheme in capitals and a space. The first result is
  \<open>https://HTTP:a.b/cd\<close>, with nothing left to strip, and the second is the same.
\<close>

theorem SecureUrl_prefix_and_idempotence_witness:
  "SecureUrl ''HTTP://a.b/c d'' True = ''https://HTTP:a.b/cd'' \<and>
   SecureUrl (SecureUrl ''HTTP://a.b/c d'' True) True = SecureUrl ''HTTP://a.b/c d'' True"
  using SecureUrl_prefix_and_idempotence [of True "''HTTP://a.b/c d''"]
  by code_simp

text \<open>
  C4, counterexample: \<open>SecureUrl\<close> is not idempotent. The space in \<open>ht tp://a\<close> hides
  the scheme from the first application, which removes the space and returns
  \<open>https://http:a\<close>; the second application strips the \<open>http:\<close> and returns
  \<open>https://a\<close>.
\<close>

theorem SecureUrl_not_idempotent:
  "SecureUrl ''ht tp://a'' True = ''https://http:a'' \<and>
   SecureUrl (SecureUrl ''ht tp://a'' True) True = ''https://a''"
  by code_simp

section \<open>Facts about validation\<close>

lemmas zero_defs = zero_CDATAString_def zero_MediaFile_def zero_Linear_def zero_Creative_def
  zero_InLine_def zero_Wrapper_def zero_Ad_def zero_VAST_def zero_Extension_def

lemmas sample_defs = media_def linear_creative_def inline_ad_def wrapper_ad_def inline_doc_def

lemma MediaFile_Validate_None: "MediaFile_Validate m = None \<longleftrightarrow> MediaFile_ok m"
  by (simp add: MediaFile_Validate_def MediaFile_ok_def)

lemma validate_media_None: "validate_media i ms = None \<longleftrightarrow> list_all MediaFile_ok ms"
  by (induction ms arbitrary: i)
    (auto simp: MediaFile_Validate_None [symmetric] split: option.splits)

lemma validate_tracks_None:
  "validate_tracks i ts = None \<longleftrightarrow> list_all (\<lambda>t. Tracking_Event t \<noteq> []) ts"
  by (induction ts arbitrary: i) (auto simp: Tracking_Validate_def split: option.splits)

lemma list_all_filter_imp:
  "list_all Q (filter P xs) \<longleftrightarrow> list_all (\<lambda>x. P x \<longrightarrow> Q x) xs"
  by (induction xs) auto

lemma Linear_Validate_None: "fst (Linear_Validate l) = None \<longleftrightarrow> Linear_ok l"
proof (cases "validate_media 0 (Linear_MediaFiles l)")
  case None
  then have media_ok: "list_all MediaFile_ok (Linear_MediaFiles l)"
    by (simp add: validate_media_None)
  note no_media_error = None
  show ?thesis
  proof (cases "validate_tracks 0
      (filter (\<lambda>t. Tracking_URI t \<noteq> []) (Linear_TrackingEvents l))")
    case None
    then have "list_all (\<lambda>t. Tracking_URI t \<noteq> [] \<longrightarrow> Tracking_Event t \<noteq> [])
        (Linear_TrackingEvents l)"
      by (simp add: validate_tracks_None list_all_filter_imp)
    with None no_media_error media_ok show ?thesis
      by (auto simp: Linear_Validate_def Linear_ok_def VideoClicks_Validate_def Let_def
          split: option.splits)
  next
    case (Some err)
    then have "\<not> list_all (\<lambda>t. Tracking_URI t \<noteq> [] \<longrightarrow> Tracking_Event t \<noteq> [])
        (Linear_TrackingEvents l)"
      using validate_tracks_None
        [of 0 "filter (\<lambda>t. Tracking_URI t \<noteq> []) (Linear_TrackingEvents l)"]
      by (simp add: list_all_filter_imp)
    with Some no_media_error show ?thesis
      by (simp add: Linear_Validate_def Linear_ok_def Let_def)
  qed
next
  case (Some err)
  then have "\<not> list_all MediaFile_ok (Linear_MediaFiles l)"
    using validate_media_None [of 0 "Linear_MediaFiles l"] by simp
  with Some show ?thesis
    by (simp add: Linear_Validate_def Linear_ok_def)
qed

lemma Creative_Validate_None: "fst (Creative_Validate c) = None \<longleftrightarrow> Creative_ok c"
  by (auto simp: Creative_Validate_def Creative_ok_def NonLinearAds_Validate_def
      Linear_Validate_None [symmetric] split: option.splits prod.splits)

lemma validate_creatives_None:
  "fst (validate_creatives i cs) = None \<longleftrightarrow> list_all Creative_ok cs"
proof (induction cs arbitrary: i)
  case Nil
  show ?case by simp
next
  case (Cons c cs)
  obtain e c' where c: "Creative_Validate c = (e, c')" by (cases "Creative_Validate c")
  then have ok: "e = None \<longleftrightarrow> Creative_ok c"
    using Creative_Validate_None [of c] by simp
  obtain e2 cs' where cs: "validate_creatives (Suc i) cs = (e2, cs')"
    by (cases "validate_creatives (Suc i) cs")
  then have "e2 = None \<longleftrightarrow> list_all Creative_ok cs"
    using Cons.IH [of "Suc i"] by simp
  with c cs ok show ?case by (cases e) auto
qed

lemma InLine_Validate_None: "fst (InLine_Validate inline) = None \<longleftrightarrow> InLine_ok inline"
proof -
  obtain e cs' where cs: "validate_creatives 0 (InLine_Creatives inline) = (e, cs')"
    by (cases "validate_creatives 0 (InLine_Creatives inline)")
  then have "e = None \<longleftrightarrow> list_all Creative_ok (InLine_Creatives inline)"
    using validate_creatives_None [of 0 "InLine_Creatives inline"] by simp
  with cs show ?thesis
    by (cases e) (auto simp: InLine_Validate_def InLine_ok_def)
qed

lemma Ad_Validate_None: "fst (Ad_Validate ad) = None \<longleftrightarrow> Ad_ok ad"
  by (auto simp: Ad_Validate_def Ad_ok_def Wrapper_Validate_def InLine_Validate_None [symmetric]
      split: option.splits prod.splits)

lemma validate_ads_None: "fst (validate_ads i ads) = None \<longleftrightarrow> list_all Ad_ok ads"
proof (induction ads arbitrary: i)
  case Nil
  show ?case by simp
next
  case (Cons ad ads)
  obtain e ad' where ad: "Ad_Validate ad = (e, ad')" by (cases "Ad_Validate ad")
  then have ok: "e = None \<longleftrightarrow> Ad_ok ad"
    using Ad_Validate_None [of ad] by simp
  obtain e2 ads' where ads: "validate_ads (Suc i) ads = (e2, ads')"
    by (cases "validate_ads (Suc i) ads")
  then have "e2 = None \<longleftrightarrow> list_all Ad_ok ads"
    using Cons.IH [of "Suc i"] by simp
  with ad ads ok show ?case by (cases e) auto
qed

text \<open>
  C3, as the code has it: \<open>Validate\<close> returns no error exactly for the documents with
  at least one \<open>Ad\<close> in which every \<open>Ad\<close> has a \<open>Wrapper\<close> or, without one, an \<open>InLine\<close>
  with at least one \<open>Creative\<close>, and every \<open>Creative\<close> of such an \<open>InLine\<close> has either a
  \<open>Linear\<close> with at least one \<open>MediaFile\<close>, all of whose media files pass
  \<open>MediaFile.Validate\<close> and all of whose tracking events with a URI have an event
  name, or no \<open>Linear\<close> and a \<open>NonLinearAds\<close>.
\<close>

theorem VAST_Validate_passes_iff: "fst (VAST_Validate v) = None \<longleftrightarrow> VAST_ok v"
proof -
  obtain e ads' where ads: "validate_ads 0 (VAST_Ads v) = (e, ads')"
    by (cases "validate_ads 0 (VAST_Ads v)")
  then have "e = None \<longleftrightarrow> list_all Ad_ok (VAST_Ads v)"
    using validate_ads_None [of 0 "VAST_Ads v"] by simp
  with ads show ?thesis
    by (auto simp: VAST_Validate_def VAST_ok_def)
qed

text \<open>
  C3, witness: the document of one inline ad with one linear creative and one valid
  media file satisfies the condition, and passes.
\<close>

theorem VAST_Validate_passes_iff_witness:
  "VAST_ok (inline_doc [media ''video/mp4'' 640 360]) \<and>
   fst (VAST_Validate (inline_doc [media ''video/mp4'' 640 360])) = None"
proof -
  have ok: "VAST_ok (inline_doc [media ''video/mp4'' 640 360])"
    by (simp add: VAST_ok_def Ad_ok_def InLine_ok_def Creative_ok_def Linear_ok_def
        MediaFile_ok_def zero_defs sample_defs)
  with VAST_Validate_passes_iff [of "inline_doc [media ''video/mp4'' 640 360]"]
  show ?thesis by simp
qed

text \<open>
  C3, counterexample: a document whose only ad is inline, with one linear creative
  that holds a valid media file and, behind it, a media file without a URI. It has a
  valid media file, and \<open>Validate\<close> returns the error
  \<open>bad ad[0] bad creative[0] bad media[1] empty uri\<close>.
\<close>

theorem VAST_Validate_one_valid_media_fails:
  "has_valid_MediaFile (inline_doc [media ''video/mp4'' 640 360, zero_MediaFile]) \<and>
   fst (VAST_Validate (inline_doc [media ''video/mp4'' 640 360, zero_MediaFile])) =
     Some (Errorf ''bad ad'' 0 (Errorf ''bad creative'' 0
       (Errorf ''bad media'' 1 (New ''empty uri''))))"
  by (simp add: has_valid_MediaFile_def VAST_Validate_def Ad_Validate_def InLine_Validate_def
      Creative_Validate_def Linear_Validate_def MediaFile_Validate_def zero_defs sample_defs)

text \<open>What \<open>InLine.Validate\<close> does to the three lists of an \<open>InLine\<close> that passes.\<close>

lemma InLine_Validate_lists:
  assumes "InLine_Validate inline = (None, inline')"
  shows "InLine_Impressions inline' =
           map (\<lambda>imp. imp\<lparr>Impression_URI := TrimSpace (Impression_URI imp)\<rparr>)
             (filter (\<lambda>imp. Impression_URI imp \<noteq> []) (InLine_Impressions inline))"
    and "InLine_ViewableImpression inline' =
           map (\<lambda>imp. imp\<lparr>Viewable_URI := TrimSpace (Viewable_URI imp)\<rparr>)
             (filter (\<lambda>imp. Viewable_URI imp \<noteq> []) (InLine_ViewableImpression inline))"
    and "InLine_Errors inline' = filter (\<lambda>imp. CDATA imp \<noteq> []) (InLine_Errors inline)"
  using assms
  by (auto simp: InLine_Validate_def split: if_splits prod.splits option.splits)

text \<open>
  C7, at the failing input: an \<open>InLine\<close> with one valid creative, an impression and
  an error URI, both with a space in front and behind. \<open>InLine.Validate\<close> passes and
  trims the URI of the impression, and it keeps the error URI as it is, spaces
  included, although \<open>TrimSpace\<close> would remove them.
\<close>

theorem InLine_Validate_keeps_Errors_untrimmed:
  "fst (InLine_Validate untrimmed_inline) = None \<and>
   InLine_Impressions (snd (InLine_Validate untrimmed_inline)) =
     [\<lparr>Impression_ID = [], Impression_URI = ''http://t.example/i''\<rparr>] \<and>
   InLine_Errors (snd (InLine_Validate untrimmed_inline)) =
     [\<lparr>CDATA = '' http://t.example/e ''\<rparr>] \<and>
   TrimSpace '' http://t.example/e '' = ''http://t.example/e''"
  by code_simp

lemma validate_ads_wrappers:
  "list_all (\<lambda>ad. Ad_Wrapper ad \<noteq> None) ads \<Longrightarrow>
   validate_ads i ads =
     (None, map (\<lambda>ad. ad\<lparr>Ad_Wrapper := map_option Wrapper_filtered (Ad_Wrapper ad)\<rparr>) ads)"
  by (induction ads arbitrary: i)
    (auto simp: Ad_Validate_def Wrapper_Validate_def Wrapper_filtered_def)

text \<open>
  C10: \<open>Wrapper.Validate\<close> returns \<open>nil\<close> for every wrapper, and leaves it as it was
  but for the impressions and the viewable impressions with an empty URI, which it
  removes. So \<open>VAST.Validate\<close> returns \<open>nil\<close> for every document with at least one ad
  in which every ad has a wrapper, and changes nothing else in it.
\<close>

theorem Wrapper_Validate_always_passes:
  "Wrapper_Validate wrap = (None, Wrapper_filtered wrap) \<and>
   (VAST_Ads v \<noteq> [] \<and> list_all (\<lambda>ad. Ad_Wrapper ad \<noteq> None) (VAST_Ads v) \<longrightarrow>
    VAST_Validate v =
      (None, v\<lparr>VAST_Ads :=
         map (\<lambda>ad. ad\<lparr>Ad_Wrapper := map_option Wrapper_filtered (Ad_Wrapper ad)\<rparr>)
           (VAST_Ads v)\<rparr>))"
  by (simp add: Wrapper_Validate_def Wrapper_filtered_def [symmetric] VAST_Validate_def
      validate_ads_wrappers)

text \<open>
  C10, witness: a document of one wrapper ad with an empty \<open>VASTAdTagURI\<close>, no
  creatives and two impressions passes, and loses the impression without a URI.
\<close>

theorem Wrapper_Validate_always_passes_witness:
  "VAST_Ads empty_wrapper_doc \<noteq> [] \<and>
   list_all (\<lambda>ad. Ad_Wrapper ad \<noteq> None) (VAST_Ads empty_wrapper_doc) \<and>
   VAST_Validate empty_wrapper_doc =
     (None, zero_VAST\<lparr>VAST_Ads := [wrapper_ad (zero_Wrapper\<lparr>Wrapper_Impressions :=
        [\<lparr>Impression_ID = [], Impression_URI = ''http://t.example/i''\<rparr>]\<rparr>)]\<rparr>)"
  using Wrapper_Validate_always_passes [of zero_Wrapper empty_wrapper_doc]
  by (simp add: empty_wrapper_doc_def Wrapper_filtered_def zero_defs sample_defs)

section \<open>Facts about \<open>SetSecure\<close>\<close>

text \<open>
  C9, as the code has it: \<open>SetSecure\<close> rewrites the error URIs of the document with
  \<open>SecureUrl\<close> and leaves every ad that has a wrapper as it was: the impressions, the
  viewable impressions and the errors of the wrapper as well as every URI in its
  creatives.
\<close>

theorem SetSecure_skips_wrappers:
  "VAST_Errors (VAST_SetSecure v secure) =
     map (\<lambda>imp. imp\<lparr>CDATA := SecureUrl (CDATA imp) secure\<rparr>) (VAST_Errors v) \<and>
   length (VAST_Ads (VAST_SetSecure v secure)) = length (VAST_Ads v) \<and>
   (\<forall>i < length (VAST_Ads v). Ad_Wrapper (VAST_Ads v ! i) \<noteq> None \<longrightarrow>
      VAST_Ads (VAST_SetSecure v secure) ! i = VAST_Ads v ! i)"
  by (auto simp: VAST_SetSecure_def Ad_SetSecure_def)

text \<open>
  C9, witness: in a document with an error URI and a wrapper ad, the error URI is
  rewritten and the ad stays.
\<close>

theorem SetSecure_skips_wrappers_witness:
  "(0::nat) < length (VAST_Ads wrapper_doc) \<and> Ad_Wrapper (VAST_Ads wrapper_doc ! 0) \<noteq> None \<and>
   VAST_Ads (VAST_SetSecure wrapper_doc True) ! 0 = VAST_Ads wrapper_doc ! 0 \<and>
   VAST_Errors (VAST_SetSecure wrapper_doc True) = [\<lparr>CDATA = ''https://t.example/e''\<rparr>]"
proof -
  have ads: "(0::nat) < length (VAST_Ads wrapper_doc)"
    and wrap: "Ad_Wrapper (VAST_Ads wrapper_doc ! 0) \<noteq> None"
    by (simp_all add: wrapper_doc_def zero_defs sample_defs)
  have url: "SecureUrl ''http://t.example/e'' True = ''https://t.example/e''" by code_simp
  from SetSecure_skips_wrappers [of wrapper_doc True] ads wrap
  have "VAST_Ads (VAST_SetSecure wrapper_doc True) ! 0 = VAST_Ads wrapper_doc ! 0"
    and "VAST_Errors (VAST_SetSecure wrapper_doc True) =
      map (\<lambda>imp. imp\<lparr>CDATA := SecureUrl (CDATA imp) True\<rparr>) (VAST_Errors wrapper_doc)"
    by blast+
  with ads wrap url show ?thesis by (simp add: wrapper_doc_def zero_defs)
qed

text \<open>
  C9, counterexample: the impression of a wrapper ad keeps its URI
  \<open>http://t.example/i\<close> under \<open>SetSecure(true)\<close>, where \<open>SecureUrl\<close> would make it
  \<open>https://t.example/i\<close>.
\<close>

theorem SetSecure_wrapper_impression_unchanged:
  "map Ad_Wrapper (VAST_Ads wrapper_doc) =
     [Some (zero_Wrapper\<lparr>Wrapper_Impressions :=
        [\<lparr>Impression_ID = [], Impression_URI = ''http://t.example/i''\<rparr>]\<rparr>)] \<and>
   map Ad_Wrapper (VAST_Ads (VAST_SetSecure wrapper_doc True)) =
     [Some (zero_Wrapper\<lparr>Wrapper_Impressions :=
        [\<lparr>Impression_ID = [], Impression_URI = ''http://t.example/i''\<rparr>]\<rparr>)] \<and>
   SecureUrl ''http://t.example/i'' True = ''https://t.example/i''"
  by code_simp

section \<open>Facts about the Extension codec\<close>

lemma copy_attributes_same:
  "distinct (map fst attributes) \<Longrightarrow> set entries \<subseteq> set attributes \<Longrightarrow>
   copy_attributes entries attributes = attributes"
proof (induction entries)
  case Nil
  show ?case by (simp add: copy_attributes_def)
next
  case (Cons entry entries)
  obtain name val where entry: "entry = (name, val)" by (cases entry)
  with Cons.prems have "map_of attributes name = Some val" by simp
  then have "AList.update name val attributes = attributes" by (rule update_triv)
  with Cons entry show ?case by (simp add: copy_attributes_def)
qed

text \<open>
  \<open>UnmarshalXML\<close> never changes the attributes of its receiver, whatever the start
  element carries: the loop copies the map onto itself.
\<close>

lemma UnmarshalXML_Attributes:
  "distinct (map fst (Extension_Attributes e)) \<Longrightarrow>
   Extension_Attributes (snd (UnmarshalXML e decoded start)) = Extension_Attributes e"
  by (cases decoded) (simp_all add: UnmarshalXML_def Let_def copy_attributes_same)

text \<open>
  C8, at the failing input: the element \<^verbatim>\<open><Extension type="t" foo="bar"/>\<close> is decoded
  into a new \<open>Extension\<close>. The result has the type \<open>t\<close> and no attribute \<open>foo\<close>.
\<close>

theorem UnmarshalXML_drops_start_attributes:
  "fst (UnmarshalXML zero_Extension (Inr (zero_Extension\<lparr>Extension_Type := ''t''\<rparr>)) foo_start) =
     None \<and>
   Extension_Type
     (snd (UnmarshalXML zero_Extension (Inr (zero_Extension\<lparr>Extension_Type := ''t''\<rparr>))
        foo_start)) = ''t'' \<and>
   map_of (Extension_Attributes
     (snd (UnmarshalXML zero_Extension (Inr (zero_Extension\<lparr>Extension_Type := ''t''\<rparr>))
        foo_start))) ''foo'' = None \<and>
   map_of (map (\<lambda>((space, name), val). (name, val)) (StartElement_Attr foo_start)) ''foo'' =
     Some ''bar''"
  by (simp add: UnmarshalXML_def copy_attributes_def foo_start_def zero_defs)

section \<open>Facts about slices that share a backing array\<close>

lemma range_loop_Suc:
  "range_loop (Suc n) body st = (let st' = range_loop n body st in body (fst st' ! n) st')"
  by (simp add: range_loop_def Let_def)

lemma range_loop_filter_prefix:
  assumes "i \<le> length xs"
  shows "range_loop i (\<lambda>m st. if P m then append_to st m else st) (xs @ spare, Shared 0) =
     (filter P (take i xs) @ drop (length (filter P (take i xs))) (xs @ spare),
      Shared (length (filter P (take i xs))))"
  using assms
proof (induction i)
  case 0
  show ?case by (simp add: range_loop_def)
next
  case (Suc i)
  let ?F = "filter P (take i xs)"
  let ?k = "length ?F"
  let ?arr = "?F @ drop ?k (xs @ spare)"
  from Suc.prems have i: "i < length xs" by simp
  have k: "?k \<le> i" using length_filter_le [of P "take i xs"] i by simp
  have IH: "range_loop i (\<lambda>m st. if P m then append_to st m else st) (xs @ spare, Shared 0) =
     (?arr, Shared ?k)"
    using Suc.IH i by (simp del: drop_append)
  have "?arr ! i = drop ?k (xs @ spare) ! (i - ?k)"
    using k by (simp add: nth_append)
  also have "\<dots> = (xs @ spare) ! i"
    using k i by (simp del: drop_append)
  finally have read: "?arr ! i = xs ! i"
    using i by (simp add: nth_append)
  have take_Suc: "take (Suc i) xs = take i xs @ [xs ! i]"
    using i by (rule take_Suc_conv_app_nth)
  show ?case
  proof (cases "P (xs ! i)")
    case False
    with IH read take_Suc show ?thesis by (simp add: range_loop_Suc del: drop_append)
  next
    case True
    have len: "?k < length ?arr" using k i by (simp del: drop_append)
    have d: "drop ?k (xs @ spare) = (xs @ spare) ! ?k # drop (Suc ?k) (xs @ spare)"
      using k i by (intro Cons_nth_drop_Suc [symmetric]) simp
    have "?arr[?k := xs ! i] = ?F @ (drop ?k (xs @ spare))[0 := xs ! i]"
      by (simp add: list_update_append del: drop_append)
    also have "\<dots> = ?F @ (xs ! i # drop (Suc ?k) (xs @ spare))"
      by (subst d) simp
    finally have upd: "?arr[?k := xs ! i] = (?F @ [xs ! i]) @ drop (Suc ?k) (xs @ spare)"
      by simp
    from True IH read len upd take_Suc show ?thesis
      by (simp add: range_loop_Suc del: append_assoc drop_append)
  qed
qed

lemma range_loop_filter:
  "elements (range_loop (length xs) (\<lambda>m st. if P m then append_to st m else st)
     (xs @ spare, Shared 0)) = filter P xs"
  by (simp add: range_loop_filter_prefix)

lemma length_elements_append_to:
  "length (elements (append_to st m)) = Suc (length (elements st))"
proof (cases st)
  case (Pair arr d)
  then show ?thesis by (cases d) auto
qed

lemma length_fst_append_to: "length (fst (append_to st m)) = length (fst st)"
proof (cases st)
  case (Pair arr d)
  then show ?thesis by (cases d) auto
qed

lemma set_elements_append_to:
  "set (elements (append_to st m)) \<subseteq> insert m (set (elements st))"
proof (cases st)
  case (Pair arr d)
  show ?thesis
  proof (cases d)
    case (Shared k)
    show ?thesis
    proof (cases "k < length arr")
      case True
      have "take (Suc k) (arr[k := m]) = take k arr @ [m]"
        using True by (simp add: take_Suc_conv_app_nth)
      with Pair Shared True show ?thesis by auto
    next
      case False
      with Pair Shared show ?thesis by auto
    qed
  next
    case (Fresh xs)
    with Pair show ?thesis by auto
  qed
qed

lemma set_take_fst_append_to:
  "set (take n (fst (append_to st m))) \<subseteq> insert m (set (take n (fst st)))"
proof (cases st)
  case (Pair arr d)
  show ?thesis
  proof (cases d)
    case (Shared k)
    have "set (take n (arr[k := m])) \<subseteq> insert m (set (take n arr))"
      by (metis set_update_subset_insert take_update_swap)
    with Pair Shared show ?thesis by auto
  next
    case (Fresh xs)
    with Pair show ?thesis by auto
  qed
qed

section \<open>Facts about the selection by format\<close>

lemma sound_format_step:
  assumes "sound n ms F st" and "f \<in> F" and "i < n"
  shows "sound n ms F (format_step f (fst st ! i) st)"
proof -
  let ?m = "fst st ! i"
  from assms have "?m \<in> set (take n (fst st))"
    by (auto simp: sound_def in_set_conv_nth intro!: exI [of _ i])
  with assms(1) have m: "?m \<in> set ms" by (auto simp: sound_def)
  show ?thesis
  proof (cases "MediaFile_Type ?m = f")
    case False
    with assms(1) show ?thesis by (simp add: format_step_def)
  next
    case True
    with assms m show ?thesis
      using set_elements_append_to [of st ?m] set_take_fst_append_to [of n st ?m]
      by (auto simp: format_step_def sound_def length_fst_append_to)
  qed
qed

lemma sound_range_loop_prefix:
  "sound n ms F st \<Longrightarrow> f \<in> F \<Longrightarrow> i \<le> n \<Longrightarrow> sound n ms F (range_loop i (format_step f) st)"
  by (induction i) (auto simp: range_loop_Suc Let_def range_loop_def intro: sound_format_step)

lemma sound_range_loop:
  "sound n ms F st \<Longrightarrow> f \<in> F \<Longrightarrow> sound n ms F (range_loop n (format_step f) st)"
  by (rule sound_range_loop_prefix) simp_all

lemma sound_fold:
  "sound n ms F st \<Longrightarrow> set fs \<subseteq> F \<Longrightarrow>
   sound n ms F (fold (\<lambda>f. range_loop n (format_step f)) fs st)"
proof (induction fs arbitrary: st)
  case Nil
  then show ?case by simp
next
  case (Cons f fs)
  from Cons.prems have "sound n ms F (range_loop n (format_step f) st)"
    by (intro sound_range_loop) simp_all
  with Cons show ?case by simp
qed

lemma sound_initial: "sound (length ms) ms F (ms @ spare, Shared 0)"
  by (simp add: sound_def)

lemma grows_format_step:
  "length (elements st) \<le> length (elements (format_step f m st))"
  by (simp add: format_step_def length_elements_append_to)

lemma grows_range_loop:
  "length (elements st) \<le> length (elements (range_loop i (format_step f) st))"
proof (induction i)
  case 0
  show ?case by (simp add: range_loop_def)
next
  case (Suc i)
  then show ?case
    using grows_format_step le_trans by (fastforce simp: range_loop_Suc Let_def)
qed

lemma grows_fold:
  "length (elements st) \<le> length (elements (fold (\<lambda>f. range_loop n (format_step f)) fs st))"
proof (induction fs arbitrary: st)
  case Nil
  show ?case by simp
next
  case (Cons f fs)
  have "length (elements st) \<le> length (elements (range_loop n (format_step f) st))"
    by (rule grows_range_loop)
  also have "\<dots> \<le> length (elements (fold (\<lambda>f. range_loop n (format_step f)) fs
      (range_loop n (format_step f) st)))"
    by (rule Cons.IH)
  finally show ?case by simp
qed

lemma format_step_eq: "format_step f = (\<lambda>m st. if MediaFile_Type m = f then append_to st m else st)"
  by (simp add: format_step_def fun_eq_iff)

lemma format_pass_initial:
  "range_loop (length ms) (format_step f) (ms @ spare, Shared 0) =
     (filter (\<lambda>m. MediaFile_Type m = f) ms @
        drop (length (filter (\<lambda>m. MediaFile_Type m = f) ms)) (ms @ spare),
      Shared (length (filter (\<lambda>m. MediaFile_Type m = f) ms)))"
  using range_loop_filter_prefix [of "length ms" ms "\<lambda>m. MediaFile_Type m = f" spare]
  by (simp add: format_step_eq)

lemma format_pass_no_match:
  assumes "\<forall>m \<in> set ms. MediaFile_Type m \<noteq> f"
  shows "range_loop (length ms) (format_step f) (ms @ spare, Shared 0) = (ms @ spare, Shared 0)"
proof -
  from assms have "filter (\<lambda>m. MediaFile_Type m = f) ms = []"
    by (simp add: filter_empty_conv)
  then show ?thesis by (simp add: format_pass_initial)
qed

lemma format_fold_no_match:
  "\<forall>m \<in> set ms. MediaFile_Type m \<notin> set fs \<Longrightarrow>
   fold (\<lambda>f. range_loop (length ms) (format_step f)) fs (ms @ spare, Shared 0) =
     (ms @ spare, Shared 0)"
proof (induction fs)
  case Nil
  show ?case by simp
next
  case (Cons f fs)
  then have "\<forall>m \<in> set ms. MediaFile_Type m \<noteq> f" by auto
  then have "range_loop (length ms) (format_step f) (ms @ spare, Shared 0) = (ms @ spare, Shared 0)"
    by (rule format_pass_no_match)
  with Cons show ?case by simp
qed

lemma format_fold_match:
  assumes "\<exists>m \<in> set ms. MediaFile_Type m \<in> set fs"
  shows "elements (fold (\<lambda>f. range_loop (length ms) (format_step f)) fs (ms @ spare, Shared 0)) \<noteq> []"
proof -
  let ?pass = "\<lambda>f. range_loop (length ms) (format_step f)"
  from assms have "\<exists>f \<in> set fs. \<exists>m \<in> set ms. MediaFile_Type m = f" by auto
  then obtain fs1 f fs2 where fs: "fs = fs1 @ f # fs2"
    and f: "\<exists>m \<in> set ms. MediaFile_Type m = f"
    and fs1: "\<forall>g \<in> set fs1. \<not> (\<exists>m \<in> set ms. MediaFile_Type m = g)"
    using split_list_first_prop [of fs "\<lambda>f. \<exists>m \<in> set ms. MediaFile_Type m = f"] by blast
  from fs1 have "\<forall>m \<in> set ms. MediaFile_Type m \<notin> set fs1" by auto
  then have before: "fold ?pass fs1 (ms @ spare, Shared 0) = (ms @ spare, Shared 0)"
    by (rule format_fold_no_match)
  from f have "filter (\<lambda>m. MediaFile_Type m = f) ms \<noteq> []"
    by (simp add: filter_empty_conv)
  then have "0 < length (elements (?pass f (ms @ spare, Shared 0)))"
    by (simp add: format_pass_initial)
  also have "\<dots> \<le> length (elements (fold ?pass fs2 (?pass f (ms @ spare, Shared 0))))"
    by (rule grows_fold)
  finally show ?thesis using fs before by simp
qed

lemma FilterFormat_eq:
  assumes "first_MediaFiles v = Some ms"
  shows "FilterFormat spare format v =
     (let media = elements (fold (\<lambda>f. range_loop (length ms) (format_step f)) format
                    (ms @ spare, Shared 0))
      in if media = [] then Inl (Error (New ''empty media by format''))
         else Inr (put_MediaFiles v media))"
  using assms
  by (auto simp: first_MediaFiles_def FilterFormat_def put_MediaFiles_def Let_def
      split: list.splits option.splits)

text \<open>
  C5, as the code has it, for a document whose first ad is inline, with a first
  creative that has a \<open>Linear\<close>, and for every spare capacity of its media files: a
  request of one format keeps exactly the media files of that type, in their order,
  and fails with \<open>empty media by format\<close> when there is none. A request of any list
  of formats fails with that error when no media file has a type of the list, and
  otherwise succeeds and keeps at least one media file, and only media files of
  the document whose type is in the list.
\<close>

theorem FilterFormat_keeps_requested:
  assumes "first_MediaFiles v = Some ms"
  shows "FilterFormat spare [f] v =
           (if filter (\<lambda>m. MediaFile_Type m = f) ms = []
            then Inl (Error (New ''empty media by format''))
            else Inr (put_MediaFiles v (filter (\<lambda>m. MediaFile_Type m = f) ms))) \<and>
         ((\<forall>m \<in> set ms. MediaFile_Type m \<notin> set format) \<longrightarrow>
            FilterFormat spare format v = Inl (Error (New ''empty media by format''))) \<and>
         ((\<exists>m \<in> set ms. MediaFile_Type m \<in> set format) \<longrightarrow>
            (\<exists>kept. FilterFormat spare format v = Inr (put_MediaFiles v kept) \<and> kept \<noteq> [] \<and>
               set kept \<subseteq> {m \<in> set ms. MediaFile_Type m \<in> set format}))"
proof (intro conjI impI)
  show "FilterFormat spare [f] v =
     (if filter (\<lambda>m. MediaFile_Type m = f) ms = []
      then Inl (Error (New ''empty media by format''))
      else Inr (put_MediaFiles v (filter (\<lambda>m. MediaFile_Type m = f) ms)))"
    using assms by (simp add: FilterFormat_eq format_pass_initial)
next
  assume "\<forall>m \<in> set ms. MediaFile_Type m \<notin> set format"
  then show "FilterFormat spare format v = Inl (Error (New ''empty media by format''))"
    using assms by (simp add: FilterFormat_eq format_fold_no_match)
next
  let ?st = "fold (\<lambda>f. range_loop (length ms) (format_step f)) format (ms @ spare, Shared 0)"
  assume "\<exists>m \<in> set ms. MediaFile_Type m \<in> set format"
  then have "elements ?st \<noteq> []" by (rule format_fold_match)
  moreover have "sound (length ms) ms (set format) ?st"
    by (intro sound_fold sound_initial) simp
  then have "set (elements ?st) \<subseteq> {m \<in> set ms. MediaFile_Type m \<in> set format}"
    by (simp add: sound_def)
  ultimately show "\<exists>kept. FilterFormat spare format v = Inr (put_MediaFiles v kept) \<and>
      kept \<noteq> [] \<and> set kept \<subseteq> {m \<in> set ms. MediaFile_Type m \<in> set format}"
    using assms by (auto simp: FilterFormat_eq Let_def)
qed

section \<open>Facts about floating point\<close>

lemma round_half_even_near: "\<bar>of_int (round_half_even t) - t\<bar> \<le> 1 / 2"
proof -
  have "of_int \<lfloor>t\<rfloor> \<le> t" and "t < of_int \<lfloor>t\<rfloor> + 1" by linarith+
  then show ?thesis
    unfolding round_half_even_def Let_def
    by (cases "t - of_int \<lfloor>t\<rfloor> < 1 / 2"; cases "1 / 2 < t - of_int \<lfloor>t\<rfloor>";
        cases "even \<lfloor>t\<rfloor>") (simp_all add: abs_if, linarith+)
qed

lemma quotient_of_abs_pos:
  assumes "x \<noteq> 0" and "quotient_of \<bar>x\<bar> = (p, q)"
  shows "0 < p" and "0 < q" and "\<bar>x\<bar> = of_int p / of_int q"
proof -
  from assms(2) show q: "0 < q" by (rule quotient_of_denom_pos)
  from assms(2) show eq: "\<bar>x\<bar> = of_int p / of_int q" by (rule quotient_of_div)
  from assms(1) have "0 < \<bar>x\<bar>" by simp
  with eq q show "0 < p" by (simp add: zero_less_divide_iff)
qed

lemma two_powi_bitlen:
  assumes "0 < p"
  shows "(2::rat) powi (bitlen p - 1) \<le> of_int p" and "of_int p < (2::rat) powi (bitlen p)"
proof -
  from assms have b: "1 \<le> bitlen p" by (simp add: bitlen_alt_def)
  from bitlen_bounds [OF assms]
  have lo: "2 ^ nat (bitlen p - 1) \<le> p" and hi: "p < 2 ^ nat (bitlen p)" by simp_all
  from lo have "(of_int (2 ^ nat (bitlen p - 1)) :: rat) \<le> of_int p" by (simp only: of_int_le_iff)
  with b show "(2::rat) powi (bitlen p - 1) \<le> of_int p" by (simp add: power_int_def)
  from hi have "(of_int p :: rat) < of_int (2 ^ nat (bitlen p))" by (simp only: of_int_less_iff)
  with b show "of_int p < (2::rat) powi (bitlen p)" by (simp add: power_int_def)
qed

lemma exponent_spec:
  assumes "x \<noteq> 0"
  shows "2 powi (exponent x) \<le> \<bar>x\<bar>" and "\<bar>x\<bar> < 2 powi (exponent x + 1)"
proof -
  obtain p q where pq: "quotient_of \<bar>x\<bar> = (p, q)" by (cases "quotient_of \<bar>x\<bar>")
  note pos = quotient_of_abs_pos [OF assms pq]
  let ?d = "bitlen p - bitlen q"
  have q_hi: "of_int q < (2::rat) powi (bitlen q)" and q_lo: "(2::rat) powi (bitlen q - 1) \<le> of_int q"
    using two_powi_bitlen [OF pos(2)] by simp_all
  have p_hi: "of_int p < (2::rat) powi (bitlen p)" and p_lo: "(2::rat) powi (bitlen p - 1) \<le> of_int p"
    using two_powi_bitlen [OF pos(1)] by simp_all
  have qpos: "(0::rat) < of_int q" using pos(2) by simp
  have "(2::rat) powi (?d - 1) * of_int q < 2 powi (?d - 1) * 2 powi (bitlen q)"
    using q_hi by (intro mult_strict_left_mono) simp_all
  also have "\<dots> = 2 powi (bitlen p - 1)"
    by (simp add: power_int_add [symmetric])
  also have "\<dots> \<le> of_int p" by (rule p_lo)
  finally have lower: "(2::rat) powi (?d - 1) < \<bar>x\<bar>"
    using qpos pos(3) by (simp add: pos_less_divide_eq)
  have "of_int p < (2::rat) powi (bitlen p)" by (rule p_hi)
  also have "\<dots> = 2 powi (?d + 1) * 2 powi (bitlen q - 1)"
    by (simp add: power_int_add [symmetric])
  also have "\<dots> \<le> 2 powi (?d + 1) * of_int q"
    using q_lo by (intro mult_left_mono) simp_all
  finally have upper: "\<bar>x\<bar> < (2::rat) powi (?d + 1)"
    using qpos pos(3) by (simp add: pos_divide_less_eq)
  show "2 powi (exponent x) \<le> \<bar>x\<bar>"
    using lower pq by (simp add: exponent_def Let_def)
  have "(2::rat) powi (?d - 1 + 1) = 2 powi ?d" by simp
  then show "\<bar>x\<bar> < 2 powi (exponent x + 1)"
    using upper pq by (auto simp add: exponent_def Let_def not_le)
qed

lemma two_powi_less_imp_less:
  assumes "(2::rat) powi a < 2 powi b"
  shows "a < b"
proof (rule ccontr)
  assume "\<not> a < b"
  then have "b \<le> a" by simp
  then have "(2::rat) powi b \<le> 2 powi a" by (rule power_int_increasing) simp
  with assms show False by simp
qed

lemma exponent_unique:
  assumes "2 powi e \<le> \<bar>x\<bar>" and "\<bar>x\<bar> < 2 powi (e + 1)"
  shows "exponent x = e"
proof -
  have pos: "(0::rat) < 2 powi e" by simp
  have "x \<noteq> 0"
  proof
    assume "x = 0"
    with assms(1) have "(2::rat) powi e \<le> 0" by simp
    with pos show False by linarith
  qed
  note spec = exponent_spec [OF this]
  have "(2::rat) powi e < 2 powi (exponent x + 1)"
    using assms(1) spec(2) by (rule le_less_trans)
  then have "e < exponent x + 1" by (rule two_powi_less_imp_less)
  moreover have "(2::rat) powi (exponent x) < 2 powi (e + 1)"
    using spec(1) assms(2) by (rule le_less_trans)
  then have "exponent x < e + 1" by (rule two_powi_less_imp_less)
  ultimately show ?thesis by simp
qed

lemma binary64_normal:
  assumes lo: "2 powi e \<le> \<bar>x\<bar>" and hi: "\<bar>x\<bar> < 2 powi (e + 1)"
    and e: "- 1022 \<le> e" "e \<le> 1022"
  shows "binary64 x = Finite (of_int (round_half_even (x / 2 powi (e - 52))) * 2 powi (e - 52))"
proof -
  let ?u = "(2::rat) powi (e - 52)"
  let ?r = "of_int (round_half_even (x / ?u)) * ?u"
  have upos: "0 < ?u" by simp
  have pos: "(0::rat) < 2 powi e" by simp
  have x: "x \<noteq> 0"
  proof
    assume "x = 0"
    with lo have "(2::rat) powi e \<le> 0" by simp
    with pos show False by linarith
  qed
  have ex: "exponent x = e" using lo hi by (rule exponent_unique)
  have "?r - x = (of_int (round_half_even (x / ?u)) - x / ?u) * ?u"
    using upos by (simp add: left_diff_distrib)
  then have "\<bar>?r - x\<bar> = \<bar>of_int (round_half_even (x / ?u)) - x / ?u\<bar> * ?u"
    using upos by (simp only: abs_mult abs_of_pos)
  also have "\<dots> \<le> 1 / 2 * ?u"
    using round_half_even_near [of "x / ?u"] upos by (intro mult_right_mono) simp_all
  finally have near: "\<bar>?r - x\<bar> \<le> ?u / 2" by simp
  have "\<bar>?r\<bar> \<le> \<bar>x\<bar> + ?u / 2" using near by linarith
  also have "\<dots> < 2 powi (e + 1) + ?u / 2" using hi by simp
  also have "\<dots> \<le> 2 powi 1023 + 2 powi 970 / 2"
  proof -
    have "(2::rat) powi (e + 1) \<le> 2 powi 1023"
      using e by (intro power_int_increasing) simp_all
    moreover have "?u \<le> 2 powi 970"
      using e by (intro power_int_increasing) simp_all
    ultimately show ?thesis by simp
  qed
  also have "\<dots> < 2 powi 1024" by (simp add: power_int_def)
  finally have "\<not> 2 powi 1024 \<le> \<bar>?r\<bar>" by simp
  with x ex e show ?thesis
    by (simp add: binary64_def Let_def max_def)
qed

lemma binary64_eval:
  assumes "2 powi e \<le> \<bar>x\<bar> \<and> \<bar>x\<bar> < 2 powi (e + 1) \<and> - 1022 \<le> e \<and> e \<le> 1022 \<and>
    of_int (round_half_even (x / 2 powi (e - 52))) * 2 powi (e - 52) = r"
  shows "binary64 x = Finite r"
  using assms binary64_normal [of e x] by simp

lemma binary64_2: "binary64 2 = Finite 2"
  by (rule binary64_eval [where e = 1]) code_simp

lemma binary64_3: "binary64 3 = Finite 3"
  by (rule binary64_eval [where e = 1]) code_simp

lemma binary64_4: "binary64 4 = Finite 4"
  by (rule binary64_eval [where e = 2]) code_simp

lemma binary64_200: "binary64 200 = Finite 200"
  by (rule binary64_eval [where e = 7]) code_simp

lemma binary64_400: "binary64 400 = Finite 400"
  by (rule binary64_eval [where e = 8]) code_simp

lemma binary64_200_3: "binary64 (200 / 3) = Finite (4691249611844267 / 70368744177664)"
  by (rule binary64_eval [where e = 6]) code_simp

lemma binary64_400_3: "binary64 (400 / 3) = Finite (4691249611844267 / 35184372088832)"
  by (rule binary64_eval [where e = 7]) code_simp

lemma binary64_below: "binary64 (- (2345624805922133 / 70368744177664)) = Finite (- (2345624805922133 / 70368744177664))"
  by (rule binary64_eval [where e = 5]) code_simp

lemma binary64_above: "binary64 (1172812402961067 / 35184372088832) = Finite (1172812402961067 / 35184372088832)"
  by (rule binary64_eval [where e = 5]) code_simp

lemma deviation_4x1: "deviation 3 1 (media t 4 1) = Finite (1172812402961067 / 35184372088832)"
  by (simp add: deviation_def f64_of_int_def media_def zero_defs binary64_3 binary64_4
      binary64_400 binary64_400_3 binary64_above)

lemma deviation_2x1: "deviation 3 1 (media t 2 1) = Finite (2345624805922133 / 70368744177664)"
  by (simp add: deviation_def f64_of_int_def media_def zero_defs binary64_3 binary64_2
      binary64_200 binary64_200_3 binary64_below)

lemma binary64_not_NaN [simp]: "binary64 x \<noteq> NaN"
  by (simp add: binary64_def Let_def)

lemma f64_abs_NaN [simp]: "f64_abs x = NaN \<longleftrightarrow> x = NaN"
  by (cases x) simp_all

lemma f64_of_int_Finite: "\<exists>r. f64_of_int i = Finite r"
proof (cases "sint i = 0")
  case True
  then show ?thesis by (simp add: f64_of_int_def binary64_def)
next
  case False
  let ?x = "of_int (sint i) :: rat"
  from False have x: "?x \<noteq> 0" by (simp only: of_int_eq_0_iff not_False_eq_True)
  note spec = exponent_spec [OF x]
  have "\<bar>sint i\<bar> \<le> 2 ^ 63"
    using sint_ge [of i] sint_lt [of i] by simp
  then have "\<bar>?x\<bar> \<le> of_int (2 ^ 63)"
    unfolding of_int_abs [symmetric] by (simp only: of_int_le_iff)
  then have "\<bar>?x\<bar> < 2 powi 64" by (simp add: power_int_def)
  with spec(1) have "(2::rat) powi (exponent ?x) < 2 powi 64" by (rule le_less_trans)
  then have hi: "exponent ?x < 64" by (rule two_powi_less_imp_less)
  from False have "1 \<le> \<bar>sint i\<bar>" by simp
  then have "(1::rat) \<le> \<bar>?x\<bar>"
    unfolding of_int_abs [symmetric] by (simp only: of_int_1_le_iff)
  with spec(2) have "(2::rat) powi 0 < 2 powi (exponent ?x + 1)" by simp
  then have "0 < exponent ?x + 1" by (rule two_powi_less_imp_less)
  with hi spec show ?thesis
    using binary64_normal [of "exponent ?x" ?x] by (simp add: f64_of_int_def)
qed

text \<open>
  A conversion of an \<open>int\<close> is finite. So the deviations from one target are either
  all ordered (none is NaN: the area of the target is not zero) or none is less than
  another (each is NaN or infinite: the area of the target is zero).
\<close>

lemma deviation_shape:
  "(\<forall>m. deviation w h m \<noteq> NaN) \<or> (\<forall>m. deviation w h m = NaN \<or> deviation w h m = PosInf)"
proof -
  obtain b where q: "f64_of_int (w * h) = Finite b"
    using f64_of_int_Finite by blast
  show ?thesis
  proof (cases "b = 0")
    case True
    have "deviation w h m = NaN \<or> deviation w h m = PosInf" for m
    proof -
      obtain a where a: "f64_of_int (MediaFile_Width m * MediaFile_Height m) = Finite a"
        using f64_of_int_Finite by blast
      show ?thesis
        using q True a
        by (cases "binary64 (a * 100)") (auto simp: deviation_def Let_def)
    qed
    then show ?thesis by blast
  next
    case False
    have "deviation w h m \<noteq> NaN" for m
    proof -
      obtain a where a: "f64_of_int (MediaFile_Width m * MediaFile_Height m) = Finite a"
        using f64_of_int_Finite by blast
      show ?thesis
      proof (cases "binary64 (a * 100)")
        case (Finite c)
        then show ?thesis
          using q False a
          by (cases "binary64 (c / b)"; cases "binary64 (c / b) = NaN")
            (auto simp: deviation_def Let_def split: f64.splits)
      next
        case PosInf
        then show ?thesis using q False a by (auto simp: deviation_def Let_def)
      next
        case NegInf
        then show ?thesis using q False a by (auto simp: deviation_def Let_def)
      next
        case NaN
        then show ?thesis by simp
      qed
    qed
    then show ?thesis by blast
  qed
qed

lemma f64_less_irrefl [simp]: "\<not> f64_less x x"
  by (cases x) simp_all

lemma f64_less_PosInf [simp]: "\<not> f64_less PosInf y"
  by (cases y) simp_all

lemma f64_less_NaN [simp]: "\<not> f64_less x NaN"
  by (cases x) simp_all

lemma f64_less_trans: "f64_less x y \<Longrightarrow> f64_less y z \<Longrightarrow> f64_less x z"
  by (cases x; cases y; cases z) simp_all

lemma f64_less_negtrans: "y \<noteq> NaN \<Longrightarrow> f64_less x z \<Longrightarrow> f64_less x y \<or> f64_less y z"
  by (cases x; cases y; cases z) auto

lemma deviation_negtrans:
  assumes "f64_less (deviation w h x) (deviation w h z)"
  shows "f64_less (deviation w h x) (deviation w h y) \<or> f64_less (deviation w h y) (deviation w h z)"
proof -
  from deviation_shape [of w h] show ?thesis
  proof
    assume "\<forall>m. deviation w h m \<noteq> NaN"
    then have "deviation w h y \<noteq> NaN" by simp
    then show ?thesis using assms by (rule f64_less_negtrans)
  next
    assume "\<forall>m. deviation w h m = NaN \<or> deviation w h m = PosInf"
    then have "deviation w h x = NaN \<or> deviation w h x = PosInf" by simp
    with assms show ?thesis by auto
  qed
qed

lemma fold_better_from:
  "\<exists>i. selects (deviation w h) (b # ys) i \<and> fold (better w h) ys b = (b # ys) ! i"
proof (induction ys rule: rev_induct)
  case Nil
  have "selects (deviation w h) [b] 0" by (simp add: selects_def)
  then show ?case by auto
next
  case (snoc y ys)
  let ?D = "deviation w h"
  let ?zs = "b # ys"
  from snoc obtain i where sel: "selects ?D ?zs i" and best: "fold (better w h) ys b = ?zs ! i"
    by blast
  from sel have i: "i < length ?zs" by (simp add: selects_def)
  have old: "(b # ys @ [y]) ! j = ?zs ! j" if "j < length ?zs" for j
    using that nth_append [of ?zs "[y]" j] by simp
  have new: "(b # ys @ [y]) ! length ?zs = y"
    using nth_append_length [of ?zs y "[]"] by simp
  show ?case
  proof (cases "f64_less (?D y) (?D (?zs ! i))")
    case True
    have "selects ?D (b # ys @ [y]) (length ?zs)"
      unfolding selects_def
    proof (intro conjI allI impI)
      show "length ?zs < length (b # ys @ [y])" by simp
    next
      fix j assume "j < length (b # ys @ [y])"
      then have "j < length ?zs \<or> j = length ?zs" by auto
      then show "\<not> f64_less (?D ((b # ys @ [y]) ! j)) (?D ((b # ys @ [y]) ! length ?zs))"
      proof
        assume j: "j < length ?zs"
        with sel have "\<not> f64_less (?D (?zs ! j)) (?D (?zs ! i))" by (simp add: selects_def)
        with True have "\<not> f64_less (?D (?zs ! j)) (?D y)"
          using f64_less_trans by blast
        with j show ?thesis by (simp only: old new not_False_eq_True)
      next
        assume "j = length ?zs"
        then show ?thesis by (simp only: new f64_less_irrefl not_False_eq_True)
      qed
    next
      fix j assume j: "j < length ?zs"
      with sel have "\<not> f64_less (?D (?zs ! j)) (?D (?zs ! i))" by (simp add: selects_def)
      with True have "f64_less (?D y) (?D (?zs ! j))"
        using deviation_negtrans [of w h y "?zs ! i" "?zs ! j"] by blast
      with j show "f64_less (?D ((b # ys @ [y]) ! length ?zs)) (?D ((b # ys @ [y]) ! j))"
        by (simp only: old new not_False_eq_True)
    qed
    moreover have "fold (better w h) (ys @ [y]) b = (b # ys @ [y]) ! length ?zs"
      using True best by (simp only: new) (simp add: better_def)
    ultimately show ?thesis by (intro exI [of _ "length ?zs"]) simp
  next
    case False
    have "selects ?D (b # ys @ [y]) i"
      unfolding selects_def
    proof (intro conjI allI impI)
      show "i < length (b # ys @ [y])" using i by simp
    next
      fix j assume "j < length (b # ys @ [y])"
      then have "j < length ?zs \<or> j = length ?zs" by auto
      then show "\<not> f64_less (?D ((b # ys @ [y]) ! j)) (?D ((b # ys @ [y]) ! i))"
      proof
        assume j: "j < length ?zs"
        with sel have "\<not> f64_less (?D (?zs ! j)) (?D (?zs ! i))" by (simp add: selects_def)
        with i j show ?thesis by (simp only: old not_False_eq_True)
      next
        assume "j = length ?zs"
        with False i show ?thesis by (simp only: old new not_False_eq_True)
      qed
    next
      fix j assume j: "j < i"
      with sel have "f64_less (?D (?zs ! i)) (?D (?zs ! j))" by (simp add: selects_def)
      moreover from i j have "j < length ?zs" by simp
      ultimately show "f64_less (?D ((b # ys @ [y]) ! i)) (?D ((b # ys @ [y]) ! j))"
        using i by (simp only: old not_False_eq_True)
    qed
    moreover have "fold (better w h) (ys @ [y]) b = (b # ys @ [y]) ! i"
      using False best i by (simp only: old not_False_eq_True) (simp add: better_def)
    ultimately show ?thesis by (intro exI [of _ i]) simp
  qed
qed

lemma fold_better_selects:
  assumes "xs \<noteq> []"
  shows "\<exists>i. selects (deviation w h) xs i \<and> fold (better w h) xs (hd xs) = xs ! i"
proof -
  from assms obtain x rest where xs: "xs = x # rest" by (cases xs) auto
  have "fold (better w h) xs (hd xs) = fold (better w h) rest x"
    using xs by (simp add: better_def)
  with fold_better_from [of w h x rest] xs show ?thesis by simp
qed

section \<open>Facts about the selection by size\<close>

lemma same_orientation_oriented: "same_orientation w h = oriented w h"
  by (auto simp: same_orientation_def oriented_def word_sless_alt sgn_if fun_eq_iff)

lemma size_step_eq:
  "size_step w h = (\<lambda>m st. if same_orientation w h m then append_to st m else st)"
  by (auto simp: size_step_def same_orientation_oriented oriented_def Let_def fun_eq_iff
      word_sless_alt)

lemma FilterSize_eq:
  assumes "first_MediaFiles v = Some ms"
  shows "FilterSize spare w h v =
     (let cands = filter (same_orientation w h) ms
      in if cands = [] then Inl (Error (New ''empty media by size''))
         else Inr (put_MediaFiles v
           [(fold (better w h) cands (hd cands))\<lparr>MediaFile_Width := w, MediaFile_Height := h\<rparr>]))"
proof -
  have "elements (range_loop (length ms) (size_step w h) (ms @ spare, Shared 0)) =
      filter (same_orientation w h) ms"
    unfolding size_step_eq by (rule range_loop_filter)
  with assms show ?thesis
    by (auto simp: first_MediaFiles_def FilterSize_def put_MediaFiles_def Let_def
        split: list.splits option.splits)
qed

text \<open>
  C2, as the code has it, for a document whose first ad is inline, with a first
  creative that has a \<open>Linear\<close>: the candidates are the media files whose width minus
  height has the sign of the target's, which is not zero. Without a candidate
  \<open>FilterSize\<close> fails with \<open>empty media by size\<close>. Otherwise it leaves one media
  file, with the width and the height of the target: the first candidate with the
  smallest deviation, where the deviation is the \<open>float64\<close> that the code computes,
  \<open>|area * 100 / target area - 100|\<close> with every operation rounded.
\<close>

theorem FilterSize_selects_nearest:
  assumes "first_MediaFiles v = Some ms"
  shows "(filter (same_orientation w h) ms = [] \<longrightarrow>
            FilterSize spare w h v = Inl (Error (New ''empty media by size''))) \<and>
         (filter (same_orientation w h) ms \<noteq> [] \<longrightarrow>
            (\<exists>i. selects (deviation w h) (filter (same_orientation w h) ms) i \<and>
               FilterSize spare w h v =
                 Inr (put_MediaFiles v
                   [(filter (same_orientation w h) ms ! i)
                      \<lparr>MediaFile_Width := w, MediaFile_Height := h\<rparr>])))"
proof (intro conjI impI)
  assume "filter (same_orientation w h) ms = []"
  then show "FilterSize spare w h v = Inl (Error (New ''empty media by size''))"
    using assms by (simp add: FilterSize_eq)
next
  let ?cands = "filter (same_orientation w h) ms"
  assume cands: "?cands \<noteq> []"
  then obtain i where "selects (deviation w h) ?cands i"
    and "fold (better w h) ?cands (hd ?cands) = ?cands ! i"
    using fold_better_selects by blast
  with cands assms show "\<exists>i. selects (deviation w h) ?cands i \<and>
      FilterSize spare w h v =
        Inr (put_MediaFiles v [(?cands ! i)\<lparr>MediaFile_Width := w, MediaFile_Height := h\<rparr>])"
    by (auto simp: FilterSize_eq Let_def)
qed

text \<open>
  C6, as the code has it: \<open>FilterFormat\<close> and \<open>FilterSize\<close> panic exactly on the
  documents without an ad and on those whose first ad is inline and has no creative
  or a first creative without a \<open>Linear\<close>. On every other document they succeed or
  return an error, which is \<open>not inline\<close> when the first ad is not inline.
\<close>

theorem Filter_panics_iff:
  "panics (FilterFormat spare format v) = missing_first_Linear v \<and>
   panics (FilterSize spare w h v) = missing_first_Linear v \<and>
   (not_inline v \<longrightarrow>
      FilterFormat spare format v = Inl (Error (New ''not inline'')) \<and>
      FilterSize spare w h v = Inl (Error (New ''not inline'')))"
  by (auto simp: panics_def missing_first_Linear_def not_inline_def FilterFormat_def
      FilterSize_def Let_def split: list.splits option.splits)

section \<open>The media selection on sample documents\<close>

lemma first_MediaFiles_inline_doc [simp]: "first_MediaFiles (inline_doc ms) = Some ms"
  by (simp add: first_MediaFiles_def zero_defs sample_defs)

lemma put_MediaFiles_inline_doc [simp]: "put_MediaFiles (inline_doc ms) ms' = inline_doc ms'"
  by (simp add: put_MediaFiles_def zero_defs sample_defs)

text \<open>
  C5, witness: of the media files of the types mp4, webm, mpg and mp4, the request
  of mp4 keeps the two of that type, in their order, and the request of flv fails.
\<close>

theorem FilterFormat_keeps_requested_witness:
  "first_MediaFiles (inline_doc [media ''mp4'' 640 360, media ''webm'' 640 360,
      media ''mpg'' 640 360, media ''mp4'' 1280 720]) =
     Some [media ''mp4'' 640 360, media ''webm'' 640 360, media ''mpg'' 640 360,
       media ''mp4'' 1280 720] \<and>
   FilterFormat [] [''mp4''] (inline_doc [media ''mp4'' 640 360, media ''webm'' 640 360,
      media ''mpg'' 640 360, media ''mp4'' 1280 720]) =
     Inr (inline_doc [media ''mp4'' 640 360, media ''mp4'' 1280 720]) \<and>
   FilterFormat [] [''flv''] (inline_doc [media ''mp4'' 640 360, media ''webm'' 640 360,
      media ''mpg'' 640 360, media ''mp4'' 1280 720]) =
     Inl (Error (New ''empty media by format''))"
  using FilterFormat_keeps_requested [of "inline_doc [media ''mp4'' 640 360,
      media ''webm'' 640 360, media ''mpg'' 640 360, media ''mp4'' 1280 720]" _ "[]" "''mp4''" "[''flv'']"]
    FilterFormat_keeps_requested [of "inline_doc [media ''mp4'' 640 360,
      media ''webm'' 640 360, media ''mpg'' 640 360, media ''mp4'' 1280 720]" _ "[]" "''flv''" "[''flv'']"]
  by (simp add: media_def zero_MediaFile_def)


text \<open>
  C5, counterexample: the media files are a webm and an mp4, and the request is
  mp4 and webm. The pass for mp4 writes the mp4 file into the first slot of the
  array, over the webm file, so that the pass for webm finds none: the webm file is
  lost, although its type was requested. And on an inline ad without a creative
  \<open>FilterFormat\<close> panics.
\<close>

theorem FilterFormat_loses_requested:
  "FilterFormat [] [''mp4'', ''webm''] (inline_doc [media ''webm'' 640 360, media ''mp4'' 640 360]) =
     Inr (inline_doc [media ''mp4'' 640 360]) \<and>
   FilterFormat [] [''mp4''] no_creative_doc = Inl (Panic IndexOutOfRange)"
proof
  show "FilterFormat [] [''mp4'', ''webm'']
      (inline_doc [media ''webm'' 640 360, media ''mp4'' 640 360]) =
    Inr (inline_doc [media ''mp4'' 640 360])"
    by (simp add: FilterFormat_eq range_loop_def format_step_def Let_def media_def
        zero_MediaFile_def)
  show "FilterFormat [] [''mp4''] no_creative_doc = Inl (Panic IndexOutOfRange)"
    by (simp add: FilterFormat_def no_creative_doc_def zero_defs sample_defs)
qed

text \<open>
  C6, witness: a document whose first ad is a wrapper. Both functions return
  \<open>not inline\<close>, and do not panic.
\<close>

theorem Filter_panics_iff_witness:
  "not_inline wrapper_doc \<and> \<not> missing_first_Linear wrapper_doc \<and>
   FilterFormat [] [''mp4''] wrapper_doc = Inl (Error (New ''not inline'')) \<and>
   FilterSize [] 640 360 wrapper_doc = Inl (Error (New ''not inline'')) \<and>
   \<not> panics (FilterFormat [] [''mp4''] wrapper_doc) \<and>
   \<not> panics (FilterSize [] 640 360 wrapper_doc)"
proof -
  have ni: "not_inline wrapper_doc"
    by (simp add: not_inline_def wrapper_doc_def zero_defs sample_defs)
  have ok: "\<not> missing_first_Linear wrapper_doc"
    by (simp add: missing_first_Linear_def wrapper_doc_def zero_defs sample_defs)
  from Filter_panics_iff [of "[]" "[''mp4'']" wrapper_doc 640 360] ni ok
  show ?thesis by (simp add: panics_def)
qed

text \<open>
  C6, counterexample: on a document without an ad, and on an inline ad without a
  creative, both functions panic on the index 0; on a creative without a \<open>Linear\<close>
  they panic on the nil pointer.
\<close>

theorem Filter_panics_on_empty_document:
  "FilterFormat [] [''mp4''] zero_VAST = Inl (Panic IndexOutOfRange) \<and>
   FilterSize [] 640 360 zero_VAST = Inl (Panic IndexOutOfRange) \<and>
   FilterFormat [] [''mp4''] no_creative_doc = Inl (Panic IndexOutOfRange) \<and>
   FilterSize [] 640 360 no_creative_doc = Inl (Panic IndexOutOfRange) \<and>
   FilterFormat [] [''mp4''] no_linear_doc = Inl (Panic NilDereference) \<and>
   FilterSize [] 640 360 no_linear_doc = Inl (Panic NilDereference)"
  by (simp add: FilterFormat_def FilterSize_def no_creative_doc_def no_linear_doc_def
      zero_defs sample_defs)

lemma binary64_921600: "binary64 921600 = Finite 921600"
  by (rule binary64_eval [where e = 19]) code_simp

lemma binary64_2073600: "binary64 2073600 = Finite 2073600"
  by (rule binary64_eval [where e = 20]) code_simp

lemma binary64_3686400: "binary64 3686400 = Finite 3686400"
  by (rule binary64_eval [where e = 21]) code_simp

lemma binary64_92160000: "binary64 92160000 = Finite 92160000"
  by (rule binary64_eval [where e = 26]) code_simp

lemma binary64_207360000: "binary64 207360000 = Finite 207360000"
  by (rule binary64_eval [where e = 27]) code_simp

lemma binary64_368640000: "binary64 368640000 = Finite 368640000"
  by (rule binary64_eval [where e = 28]) code_simp

lemma binary64_100: "binary64 100 = Finite 100"
  by (rule binary64_eval [where e = 6]) code_simp

lemma binary64_400_9: "binary64 (400 / 9) = Finite (3127499741229511 / 70368744177664)"
  by (rule binary64_eval [where e = 5]) code_simp

lemma binary64_1600_9: "binary64 (1600 / 9) = Finite (3127499741229511 / 17592186044416)"
  by (rule binary64_eval [where e = 7]) code_simp

lemma binary64_small: "binary64 (- (3909374676536889 / 70368744177664)) =
    Finite (- (3909374676536889 / 70368744177664))"
  by (rule binary64_eval [where e = 5]) code_simp

lemma binary64_large: "binary64 (1368281136787911 / 17592186044416) =
    Finite (1368281136787911 / 17592186044416)"
  by (rule binary64_eval [where e = 6]) code_simp

lemma deviation_1280x720:
  "deviation 1920 1080 (media t 1280 720) = Finite (3909374676536889 / 70368744177664)"
  by (simp add: deviation_def f64_of_int_def media_def zero_defs binary64_921600
      binary64_2073600 binary64_92160000 binary64_400_9 binary64_small)

lemma deviation_1920x1080:
  "deviation 1920 1080 (media t 1920 1080) = Finite 0"
  by (simp add: deviation_def f64_of_int_def media_def zero_defs
      binary64_2073600 binary64_207360000 binary64_100) (simp add: binary64_def)

lemma deviation_2560x1440:
  "deviation 1920 1080 (media t 2560 1440) = Finite (1368281136787911 / 17592186044416)"
  by (simp add: deviation_def f64_of_int_def media_def zero_defs binary64_3686400
      binary64_2073600 binary64_368640000 binary64_1600_9 binary64_large)

lemma same_orientation_media:
  "same_orientation w h (media t mw mh) \<longleftrightarrow>
     0 <s w - h \<and> 0 <s mw - mh \<or> w - h <s 0 \<and> mw - mh <s 0"
  by (simp add: same_orientation_oriented oriented_def media_def zero_defs)

text \<open>
  C2, witness: the target is 1920 by 1080. The portrait media file is no candidate,
  and of the candidates of the areas 921600, 2073600 and 3686400 the one of the
  area of the target is left.
\<close>

theorem FilterSize_selects_nearest_witness:
  "first_MediaFiles sized_doc =
     Some [media ''mp4'' 1280 720, media ''mp4'' 720 1280, media ''webm'' 1920 1080,
       media ''mpg'' 2560 1440] \<and>
   filter (same_orientation 1920 1080) [media ''mp4'' 1280 720, media ''mp4'' 720 1280,
       media ''webm'' 1920 1080, media ''mpg'' 2560 1440] =
     [media ''mp4'' 1280 720, media ''webm'' 1920 1080, media ''mpg'' 2560 1440] \<and>
   FilterSize [] 1920 1080 sized_doc = Inr (inline_doc [media ''webm'' 1920 1080])"
proof -
  let ?ms = "[media ''mp4'' 1280 720, media ''mp4'' 720 1280, media ''webm'' 1920 1080,
       media ''mpg'' 2560 1440]"
  let ?cands = "[media ''mp4'' 1280 720, media ''webm'' 1920 1080, media ''mpg'' 2560 1440]"
  have first: "first_MediaFiles sized_doc = Some ?ms" by (simp add: sized_doc_def)
  have cands: "filter (same_orientation 1920 1080) ?ms = ?cands"
    by (simp add: same_orientation_media word_sless_alt)
  from FilterSize_selects_nearest [OF first, of 1920 1080 "[]"] cands
  obtain i where sel: "selects (deviation 1920 1080) ?cands i"
    and res: "FilterSize [] 1920 1080 sized_doc =
      Inr (put_MediaFiles sized_doc
        [(?cands ! i)\<lparr>MediaFile_Width := 1920, MediaFile_Height := 1080\<rparr>])"
    by auto
  from sel have "i < length ?cands"
    and "\<forall>j < length ?cands.
      \<not> f64_less (deviation 1920 1080 (?cands ! j)) (deviation 1920 1080 (?cands ! i))"
    unfolding selects_def by blast+
  then have "i < 3"
    and "\<not> f64_less (deviation 1920 1080 (media ''webm'' 1920 1080))
      (deviation 1920 1080 (?cands ! i))"
    by (simp, elim allE [of _ 1]) simp_all
  then have "i = 1"
    by (cases "i = 0"; cases "i = 2")
      (auto simp: deviation_1280x720 deviation_1920x1080 deviation_2560x1440)
  with res first cands show ?thesis
    by (simp add: sized_doc_def media_def zero_defs)
qed

text \<open>
  C2, counterexample: the target is 3 by 1, and the candidates have the areas 4 and
  2, in this order. In exact arithmetic both deviate by a third of the target's
  area. In \<open>float64\<close> the deviation of the first is \<open>33.33333333333334\<close> and that
  of the second is \<open>33.33333333333333\<close> (the lemmas \<open>deviation_4x1\<close> and
  \<open>deviation_2x1\<close>), so the second candidate is left, not the first. And on an
  inline ad without a creative \<open>FilterSize\<close> panics.
\<close>

theorem FilterSize_later_candidate_wins_tie:
  "filter (same_orientation 3 1) [media ''mp4'' 4 1, media ''webm'' 2 1] =
     [media ''mp4'' 4 1, media ''webm'' 2 1] \<and>
   exact_deviation 3 1 (media ''mp4'' 4 1) = exact_deviation 3 1 (media ''webm'' 2 1) \<and>
   FilterSize [] 3 1 (inline_doc [media ''mp4'' 4 1, media ''webm'' 2 1]) =
     Inr (inline_doc [media ''webm'' 3 1]) \<and>
   FilterSize [] 3 1 no_creative_doc = Inl (Panic IndexOutOfRange)"
proof (intro conjI)
  show cands: "filter (same_orientation 3 1) [media ''mp4'' 4 1, media ''webm'' 2 1] =
     [media ''mp4'' 4 1, media ''webm'' 2 1]"
    by (simp add: same_orientation_media word_sless_alt)
  show "exact_deviation 3 1 (media ''mp4'' 4 1) = exact_deviation 3 1 (media ''webm'' 2 1)"
    by (simp add: exact_deviation_def media_def zero_defs)
  show "FilterSize [] 3 1 (inline_doc [media ''mp4'' 4 1, media ''webm'' 2 1]) =
     Inr (inline_doc [media ''webm'' 3 1])"
  proof -
    have "FilterSize [] 3 1 (inline_doc [media ''mp4'' 4 1, media ''webm'' 2 1]) =
      Inr (put_MediaFiles (inline_doc [media ''mp4'' 4 1, media ''webm'' 2 1])
        [(fold (better 3 1) [media ''mp4'' 4 1, media ''webm'' 2 1] (media ''mp4'' 4 1))
           \<lparr>MediaFile_Width := 3, MediaFile_Height := 1\<rparr>])"
      using FilterSize_eq [of "inline_doc [media ''mp4'' 4 1, media ''webm'' 2 1]" _ "[]" 3 1]
      by (simp only: first_MediaFiles_inline_doc cands Let_def) simp
    moreover have "fold (better 3 1) [media ''mp4'' 4 1, media ''webm'' 2 1] (media ''mp4'' 4 1) =
        media ''webm'' 2 1"
      by (simp add: better_def deviation_4x1 deviation_2x1)
    ultimately show ?thesis by (simp add: media_def zero_defs)
  qed
  show "FilterSize [] 3 1 no_creative_doc = Inl (Panic IndexOutOfRange)"
    by (simp add: FilterSize_def no_creative_doc_def zero_defs sample_defs)
qed

end
